theory Spec2Isabelle
  imports Complex_Main
begin

section \<open>Scalars\<close>

text \<open>
  The entries of a tensor are floating-point numbers. They are modelled with the special
  values of IEEE-754 kept apart (both infinities and NaN, which the code can produce by
  \<^verbatim>\<open>1. / D\<close> on a node of degree zero) and with the finite values as exact reals:
  rounding, overflow and the sign of zero are outside the model. What an overflow
  gives, an infinity and then possibly NaN, is a value of the model all the same: a
  theorem stated for all entries covers it, and the theorems on zero weights are stated
  so.
\<close>

datatype fl = Fin real | PInf | NInf | NaN

instantiation fl :: "{comm_monoid_add, times, one}"
begin

definition zero_fl :: fl where
  "zero_fl = Fin 0"

definition one_fl :: fl where
  "one_fl = Fin 1"

fun plus_fl :: "fl \<Rightarrow> fl \<Rightarrow> fl" where
  "plus_fl (Fin a) (Fin b) = Fin (a + b)"
| "plus_fl NaN _ = NaN"
| "plus_fl _ NaN = NaN"
| "plus_fl PInf NInf = NaN"
| "plus_fl NInf PInf = NaN"
| "plus_fl PInf _ = PInf"
| "plus_fl _ PInf = PInf"
| "plus_fl NInf _ = NInf"
| "plus_fl _ NInf = NInf"

fun times_fl :: "fl \<Rightarrow> fl \<Rightarrow> fl" where
  "times_fl (Fin a) (Fin b) = Fin (a * b)"
| "times_fl NaN _ = NaN"
| "times_fl _ NaN = NaN"
| "times_fl PInf (Fin b) = (if 0 < b then PInf else if b < 0 then NInf else NaN)"
| "times_fl NInf (Fin b) = (if 0 < b then NInf else if b < 0 then PInf else NaN)"
| "times_fl (Fin a) PInf = (if 0 < a then PInf else if a < 0 then NInf else NaN)"
| "times_fl (Fin a) NInf = (if 0 < a then NInf else if a < 0 then PInf else NaN)"
| "times_fl PInf PInf = PInf"
| "times_fl PInf NInf = NInf"
| "times_fl NInf PInf = NInf"
| "times_fl NInf NInf = PInf"

instance
proof (standard, goal_cases)
  case (1 x y z)
  show ?case by (cases x; cases y; cases z; simp)
next
  case (2 x y)
  show ?case by (cases x; cases y; simp)
next
  case (3 x)
  show ?case by (cases x; simp add: zero_fl_def)
qed

end

text \<open>Division: a finite nonzero value over zero is an infinity, zero over zero is NaN.\<close>

fun fl_div :: "fl \<Rightarrow> fl \<Rightarrow> fl" where
  "fl_div (Fin a) (Fin b) =
     (if b \<noteq> 0 then Fin (a / b) else if 0 < a then PInf else if a < 0 then NInf else NaN)"
| "fl_div NaN _ = NaN"
| "fl_div _ NaN = NaN"
| "fl_div (Fin a) _ = Fin 0"
| "fl_div PInf (Fin b) = (if 0 \<le> b then PInf else NInf)"
| "fl_div NInf (Fin b) = (if 0 \<le> b then NInf else PInf)"
| "fl_div _ _ = NaN"

fun fl_neg :: "fl \<Rightarrow> fl" where
  "fl_neg (Fin a) = Fin (- a)"
| "fl_neg PInf = NInf"
| "fl_neg NInf = PInf"
| "fl_neg NaN = NaN"

definition fl_sub :: "fl \<Rightarrow> fl \<Rightarrow> fl" where
  "fl_sub a b = a + fl_neg b"

fun fl_relu :: "fl \<Rightarrow> fl" where
  "fl_relu (Fin a) = Fin (max a 0)"
| "fl_relu PInf = PInf"
| "fl_relu NInf = Fin 0"
| "fl_relu NaN = NaN"


text \<open>
  A value that is zero or NaN: what the product of any value, finite, infinite or NaN,
  with a zero weight is.
\<close>

fun zero_or_nan :: "fl \<Rightarrow> bool" where
  "zero_or_nan (Fin a) = (a = 0)"
| "zero_or_nan NaN = True"
| "zero_or_nan _ = False"

section \<open>Tensors and the tensor operations the layer uses\<close>

text \<open>
  A tensor is its shape and its entries in row-major order. The operations below are
  the ones \<^verbatim>\<open>gcn.py\<close> calls, for operands of the ranks the layer is given
  (node features and adjacency of rank 2, edge features of rank 3, vectors of rank 1):
  a shape mismatch is the error the framework raises, and an operand of a higher rank
  (a batched product, a broadcast over three axes) is answered \<open>Unsupported\<close>.
\<close>

record tensor =
  shape :: "nat list"
  data :: "fl list"

datatype error = AssertionError | IndexError | TypeError | InvalidArgumentError | Unsupported

definition and_then :: "error + 'a \<Rightarrow> ('a \<Rightarrow> error + 'b) \<Rightarrow> error + 'b" where
  "and_then m f = (case m of Inl e \<Rightarrow> Inl e | Inr x \<Rightarrow> f x)"

text \<open>Python's \<^verbatim>\<open>xs[i]\<close> for \<open>i \<ge> 0\<close> and \<^verbatim>\<open>xs[-1]\<close>.\<close>

definition getitem :: "'a list \<Rightarrow> nat \<Rightarrow> error + 'a" where
  "getitem xs i = (if i < length xs then Inr (xs ! i) else Inl IndexError)"

definition last_item :: "'a list \<Rightarrow> error + 'a" where
  "last_item xs = (if xs = [] then Inl IndexError else Inr (last xs))"

definition has_shape :: "tensor \<Rightarrow> nat list \<Rightarrow> bool" where
  "has_shape t s \<longleftrightarrow> shape t = s \<and> length (data t) = prod_list s"


definition vec :: "nat \<Rightarrow> (nat \<Rightarrow> fl) \<Rightarrow> tensor" where
  "vec n f = \<lparr>shape = [n], data = map f [0..<n]\<rparr>"

definition mat :: "nat \<Rightarrow> nat \<Rightarrow> (nat \<Rightarrow> nat \<Rightarrow> fl) \<Rightarrow> tensor" where
  "mat n m f = \<lparr>shape = [n, m], data = map (\<lambda>p. f (p div m) (p mod m)) [0..<n * m]\<rparr>"

definition at1 :: "tensor \<Rightarrow> nat \<Rightarrow> fl" where
  "at1 t i = data t ! i"

definition at2 :: "tensor \<Rightarrow> nat \<Rightarrow> nat \<Rightarrow> fl" where
  "at2 t i j = data t ! (i * (shape t ! 1) + j)"

definition at3 :: "tensor \<Rightarrow> nat \<Rightarrow> nat \<Rightarrow> nat \<Rightarrow> fl" where
  "at3 t i j f = data t ! ((i * (shape t ! 1) + j) * (shape t ! 2) + f)"

definition scalar :: "fl \<Rightarrow> tensor" where
  "scalar c = \<lparr>shape = [], data = [c]\<rparr>"

text \<open>\<^verbatim>\<open>a @ b\<close> (\<^verbatim>\<open>tf.linalg.matmul\<close>) on two matrices.\<close>

definition matmul :: "tensor \<Rightarrow> tensor \<Rightarrow> error + tensor" where
  "matmul a b =
     (if length (shape a) < 2 \<or> length (shape b) < 2 then Inl InvalidArgumentError
      else if length (shape a) > 2 \<or> length (shape b) > 2 then Inl Unsupported
      else if shape a ! 1 \<noteq> shape b ! 0 then Inl InvalidArgumentError
      else Inr (mat (shape a ! 0) (shape b ! 1)
             (\<lambda>i j. \<Sum>k\<leftarrow>[0..<shape a ! 1]. at2 a i k * at2 b k j)))"

text \<open>
  Elementwise operations broadcast: the shapes are aligned at the last axis, and an axis
  of length 1 is repeated along the other operand's axis.
\<close>

fun view2 :: "nat list \<Rightarrow> (nat \<times> nat) option" where
  "view2 [] = Some (1, 1)"
| "view2 [c] = Some (1, c)"
| "view2 [r, c] = Some (r, c)"
| "view2 _ = None"

definition bdim :: "nat \<Rightarrow> nat \<Rightarrow> nat option" where
  "bdim a b = (if a = b then Some a else if a = 1 then Some b else if b = 1 then Some a else None)"

definition bidx :: "nat \<Rightarrow> nat \<Rightarrow> nat" where
  "bidx n i = (if n = 1 then 0 else i)"

definition elementwise :: "(fl \<Rightarrow> fl \<Rightarrow> fl) \<Rightarrow> tensor \<Rightarrow> tensor \<Rightarrow> error + tensor" where
  "elementwise f a b =
     (case (view2 (shape a), view2 (shape b)) of
        (Some (ra, ca), Some (rb, cb)) \<Rightarrow>
          (case (bdim ra rb, bdim ca cb) of
             (Some r, Some c) \<Rightarrow>
               Inr \<lparr>shape = drop (2 - max (length (shape a)) (length (shape b))) [r, c],
                    data = map (\<lambda>p. f (data a ! (bidx ra (p div c) * ca + bidx ca (p mod c)))
                                       (data b ! (bidx rb (p div c) * cb + bidx cb (p mod c))))
                               [0..<r * c]\<rparr>
           | _ \<Rightarrow> Inl InvalidArgumentError)
      | _ \<Rightarrow> Inl Unsupported)"

definition tf_add :: "tensor \<Rightarrow> tensor \<Rightarrow> error + tensor" where
  "tf_add = elementwise (+)"

definition tf_mul :: "tensor \<Rightarrow> tensor \<Rightarrow> error + tensor" where
  "tf_mul = elementwise (*)"

definition tf_div :: "tensor \<Rightarrow> tensor \<Rightarrow> error + tensor" where
  "tf_div = elementwise fl_div"

text \<open>The difference of two tensors, by which two outputs of a layer are compared.\<close>

definition tf_sub :: "tensor \<Rightarrow> tensor \<Rightarrow> error + tensor" where
  "tf_sub = elementwise fl_sub"

text \<open>\<^verbatim>\<open>tf.expand_dims(t, axis=-1)\<close>.\<close>

definition expand_dims_last :: "tensor \<Rightarrow> tensor" where
  "expand_dims_last t = t\<lparr>shape := shape t @ [1]\<rparr>"

text \<open>
  \<^verbatim>\<open>tf.einsum('ij,ijf,fg->ig', a, z, e)\<close>: the entry \<open>(i, g)\<close> is the sum over
  \<open>j\<close> and \<open>f\<close> of \<open>a[i,j] * z[i,j,f] * e[f,g]\<close>; the axes named alike must agree.
\<close>

definition einsum_ij_ijf_fg :: "tensor \<Rightarrow> tensor \<Rightarrow> tensor \<Rightarrow> error + tensor" where
  "einsum_ij_ijf_fg a z e =
     (if length (shape a) = 2 \<and> length (shape z) = 3 \<and> length (shape e) = 2
         \<and> shape z ! 0 = shape a ! 0 \<and> shape z ! 1 = shape a ! 1 \<and> shape e ! 0 = shape z ! 2
      then Inr (mat (shape a ! 0) (shape e ! 1)
             (\<lambda>i g. \<Sum>j\<leftarrow>[0..<shape a ! 1]. \<Sum>f\<leftarrow>[0..<shape z ! 2].
                        at2 a i j * at3 z i j f * at2 e f g))
      else Inl InvalidArgumentError)"

text \<open>The activations named \<^verbatim>\<open>'linear'\<close> and \<^verbatim>\<open>'relu'\<close>.\<close>

definition linear :: "tensor \<Rightarrow> tensor" where
  "linear t = t"

definition relu :: "tensor \<Rightarrow> tensor" where
  "relu t = t\<lparr>data := map fl_relu (data t)\<rparr>"

section \<open>The collaborator \<^verbatim>\<open>utils\<close>\<close>

text \<open>
  Modelled from the spec: \<^verbatim>\<open>utils.get_degrees\<close>, which is not among the sources.
  The spec gives it as the per-node degree, the row-sum of the adjacency matrix.
  \<^verbatim>\<open>utils.normalize_adjacency\<close> is absent as well and the spec leaves it opaque: it
  is a parameter of every function that calls it.
\<close>

definition get_degrees :: "tensor \<Rightarrow> error + tensor" where
  "get_degrees a =
     (if length (shape a) = 2
      then Inr (vec (shape a ! 0) (\<lambda>i. \<Sum>j\<leftarrow>[0..<shape a ! 1]. at2 a i j))
      else Inl Unsupported)"

type_synonym normalizer = "tensor \<Rightarrow> bool \<Rightarrow> error + tensor"

section \<open>GraphConvolution\<close>

text \<open>
  An initializer is modelled by the value it yields for the entry at a row-major
  position of the weight of a given name and shape; a random initializer is any such
  function. Regularizers and constraints take no part in \<^verbatim>\<open>build\<close> or
  \<^verbatim>\<open>call\<close> and are left out.
\<close>

type_synonym initializer = "string \<Rightarrow> nat list \<Rightarrow> nat \<Rightarrow> fl"

definition zeros :: initializer where
  "zeros name shp p = 0"

record GraphConvolution =
  F_out :: nat
  auto_normalize :: bool
  rooted_subtree :: bool
  activation :: "tensor \<Rightarrow> tensor"
  use_bias :: bool
  kernel_initializer :: initializer
  bias_initializer :: initializer
  kernel :: "tensor option"
  bias :: "tensor option"
  rooted_kernel :: "tensor option"
  edge_kernel :: "tensor option"
  built :: bool

definition GraphConvolution_init ::
  "nat \<Rightarrow> bool \<Rightarrow> bool \<Rightarrow> (tensor \<Rightarrow> tensor) \<Rightarrow> bool \<Rightarrow> initializer \<Rightarrow> initializer
     \<Rightarrow> GraphConvolution" where
  "GraphConvolution_init F an rs act ub ki bi =
     \<lparr>F_out = F, auto_normalize = an, rooted_subtree = rs, activation = act, use_bias = ub,
      kernel_initializer = ki, bias_initializer = bi,
      kernel = None, bias = None, rooted_kernel = None, edge_kernel = None, built = False\<rparr>"

definition add_weight :: "nat list \<Rightarrow> initializer \<Rightarrow> string \<Rightarrow> tensor" where
  "add_weight shp init name = \<lparr>shape = shp, data = map (init name shp) [0..<prod_list shp]\<rparr>"

definition build :: "GraphConvolution \<Rightarrow> nat list list \<Rightarrow> error + GraphConvolution" where
  "build self input_shape =
     (if length input_shape \<notin> {2, 3} then Inl AssertionError
      else
        and_then (getitem input_shape 0) (\<lambda>s0.
        and_then (last_item s0) (\<lambda>F.
          let self1 = self\<lparr>kernel :=
                Some (add_weight [F, F_out self] (kernel_initializer self) ''kernel'')\<rparr>;
              self2 = (if use_bias self1
                then self1\<lparr>bias :=
                  Some (add_weight [F_out self1] (bias_initializer self1) ''bias'')\<rparr>
                else self1);
              self3 = (if rooted_subtree self2
                then self2\<lparr>rooted_kernel :=
                  Some (add_weight [F, F_out self2] (kernel_initializer self2) ''rooted_kernel'')\<rparr>
                else self2)
          in if length input_shape = 3 \<and> input_shape ! 2 \<noteq> [0]
             then and_then (last_item (input_shape ! 2)) (\<lambda>F_edge.
                    Inr (self3\<lparr>edge_kernel :=
                      Some (add_weight [F_edge, F_out self3] (kernel_initializer self3)
                              ''edge_kernel'')\<rparr>))
             else Inr self3)))"

text \<open>A weight that \<^verbatim>\<open>build\<close> has not created is still \<^verbatim>\<open>None\<close>: using it raises.\<close>

definition weight :: "tensor option \<Rightarrow> error + tensor" where
  "weight w = (case w of None \<Rightarrow> Inl TypeError | Some t \<Rightarrow> Inr t)"

text \<open>Lines 94 to 97 of \<^verbatim>\<open>call\<close>: the adjacency the aggregation uses.\<close>

definition adjacency :: "normalizer \<Rightarrow> GraphConvolution \<Rightarrow> tensor \<Rightarrow> error + tensor" where
  "adjacency normalize_adjacency self A =
     (if auto_normalize self then normalize_adjacency A (rooted_subtree self) else Inr A)"

text \<open>The term \<^verbatim>\<open>tf.expand_dims(Dinv, axis=-1) * (X @ self.rooted_kernel)\<close>.\<close>

definition root_term :: "GraphConvolution \<Rightarrow> tensor \<Rightarrow> tensor \<Rightarrow> error + tensor" where
  "root_term self X A =
     and_then (get_degrees A) (\<lambda>D.
     and_then (tf_div (scalar 1) D) (\<lambda>Dinv.
     and_then (weight (rooted_kernel self)) (\<lambda>rk.
     and_then (matmul X rk) (\<lambda>Xr.
       tf_mul (expand_dims_last Dinv) Xr))))"

text \<open>Lines 94 to 107 of \<^verbatim>\<open>call\<close>: the value \<open>y\<close> the activation is applied to.\<close>

definition pre_activation :: "normalizer \<Rightarrow> GraphConvolution \<Rightarrow> tensor list \<Rightarrow> error + tensor" where
  "pre_activation normalize_adjacency self inputs =
     and_then (getitem inputs 0) (\<lambda>X.
     and_then (getitem inputs 1) (\<lambda>A0.
     and_then (adjacency normalize_adjacency self A0) (\<lambda>A.
     and_then (matmul A X) (\<lambda>AX.
     and_then (weight (kernel self)) (\<lambda>k.
     and_then (matmul AX k) (\<lambda>y.
     and_then (if rooted_subtree self
               then and_then (root_term self X A) (tf_add y)
               else Inr y) (\<lambda>y.
     and_then (if edge_kernel self \<noteq> None
               then and_then (getitem inputs 2) (\<lambda>Z.
                    and_then (weight (edge_kernel self)) (\<lambda>ek.
                    and_then (einsum_ij_ijf_fg A Z ek) (tf_add y)))
               else Inr y) (\<lambda>y.
       if use_bias self then and_then (weight (bias self)) (tf_add y) else Inr y))))))))"

text \<open>
  Lines 103 to 107 of \<^verbatim>\<open>call\<close> alone: the edge term and the bias, added to the
  value \<open>y\<close> that the aggregation and the root term have given.
\<close>

definition edge_and_bias :: "GraphConvolution \<Rightarrow> tensor \<Rightarrow> tensor list \<Rightarrow> tensor \<Rightarrow> error + tensor" where
  "edge_and_bias self A inputs y =
     and_then (if edge_kernel self \<noteq> None
               then and_then (getitem inputs 2) (\<lambda>Z.
                    and_then (weight (edge_kernel self)) (\<lambda>ek.
                    and_then (einsum_ij_ijf_fg A Z ek) (tf_add y)))
               else Inr y) (\<lambda>y.
       if use_bias self then and_then (weight (bias self)) (tf_add y) else Inr y)"

definition call :: "normalizer \<Rightarrow> GraphConvolution \<Rightarrow> tensor list \<Rightarrow> error + tensor" where
  "call normalize_adjacency self inputs =
     and_then (pre_activation normalize_adjacency self inputs) (\<lambda>y. Inr (activation self y))"

text \<open>
  A layer is applied through the framework's \<^verbatim>\<open>Layer.__call__\<close>: the first
  application runs \<^verbatim>\<open>build\<close> on the shapes of the inputs and marks the layer built,
  and every application then runs \<^verbatim>\<open>call\<close>.
\<close>

definition Layer_call ::
  "normalizer \<Rightarrow> GraphConvolution \<Rightarrow> tensor list \<Rightarrow> error + (GraphConvolution \<times> tensor)" where
  "Layer_call normalize_adjacency self inputs =
     and_then (if built self then Inr self
               else and_then (build self (map shape inputs)) (\<lambda>s. Inr (s\<lparr>built := True\<rparr>)))
       (\<lambda>self'. and_then (call normalize_adjacency self' inputs) (\<lambda>y. Inr (self', y)))"

section \<open>The methods of GraphConvolution, statement by statement\<close>

text \<open>
  The definitions above give \<^verbatim>\<open>call\<close> the layer as an argument and return a
  tensor. Here the two methods are written once more as the sequences of statements they
  are, over the layer as a mutable object: a method takes the layer and returns its
  result, or the exception raised, together with the layer as the method leaves it.
  \<open>attribute\<close> is a read \<^verbatim>\<open>self.x\<close>, \<open>assign\<close> is a statement
  \<^verbatim>\<open>self.x = ...\<close>, \<open>expression\<close> is the evaluation of an expression over
  local values (the operations of the tensor library return new tensors and the
  collaborators in \<^verbatim>\<open>utils\<close> are given the adjacency, not the layer), and
  \<open>next_do\<close> runs a statement and then the rest of the method with its value, or
  stops at the exception, keeping what has been assigned so far.
\<close>

type_synonym 'a procedure = "GraphConvolution \<Rightarrow> (error + 'a) \<times> GraphConvolution"

definition attribute :: "(GraphConvolution \<Rightarrow> 'a) \<Rightarrow> 'a procedure" where
  "attribute f self = (Inr (f self), self)"

definition expression :: "error + 'a \<Rightarrow> 'a procedure" where
  "expression r self = (r, self)"

definition assign :: "(GraphConvolution \<Rightarrow> GraphConvolution) \<Rightarrow> unit procedure" where
  "assign update self = (Inr (), update self)"

definition next_do :: "'a procedure \<Rightarrow> ('a \<Rightarrow> 'b procedure) \<Rightarrow> 'b procedure" where
  "next_do m f self =
     (case m self of (Inl e, self') \<Rightarrow> (Inl e, self') | (Inr x, self') \<Rightarrow> f x self')"

text \<open>The use of a weight \<^verbatim>\<open>self.w\<close> as an operand: it raises on \<^verbatim>\<open>None\<close>.\<close>

definition weight_method :: "(GraphConvolution \<Rightarrow> tensor option) \<Rightarrow> tensor procedure" where
  "weight_method w = next_do (attribute w) (\<lambda>t. expression (weight t))"

text \<open>\<^verbatim>\<open>build\<close>, lines 57 to 91.\<close>

definition build_method :: "nat list list \<Rightarrow> unit procedure" where
  "build_method input_shape =
     next_do (expression (if length input_shape \<in> {2, 3} then Inr () else Inl AssertionError)) (\<lambda>_.
     next_do (expression (getitem input_shape 0)) (\<lambda>s0.
     next_do (expression (last_item s0)) (\<lambda>F.
     next_do (attribute F_out) (\<lambda>Fout.
     next_do (attribute kernel_initializer) (\<lambda>ki.
     next_do (assign (\<lambda>self. self\<lparr>kernel := Some (add_weight [F, Fout] ki ''kernel'')\<rparr>)) (\<lambda>_.
     next_do (attribute use_bias) (\<lambda>ub.
     next_do (if ub
              then next_do (attribute bias_initializer) (\<lambda>bi.
                     assign (\<lambda>self. self\<lparr>bias := Some (add_weight [Fout] bi ''bias'')\<rparr>))
              else expression (Inr ())) (\<lambda>_.
     next_do (attribute rooted_subtree) (\<lambda>rs.
     next_do (if rs
              then assign (\<lambda>self. self\<lparr>rooted_kernel :=
                             Some (add_weight [F, Fout] ki ''rooted_kernel'')\<rparr>)
              else expression (Inr ())) (\<lambda>_.
       if length input_shape = 3 \<and> input_shape ! 2 \<noteq> [0]
       then next_do (expression (last_item (input_shape ! 2))) (\<lambda>F_edge.
              assign (\<lambda>self. self\<lparr>edge_kernel :=
                             Some (add_weight [F_edge, Fout] ki ''edge_kernel'')\<rparr>))
       else expression (Inr ())))))))))))"

text \<open>\<^verbatim>\<open>call\<close>, lines 93 to 109: every statement reads, none assigns.\<close>

definition adjacency_method :: "normalizer \<Rightarrow> tensor \<Rightarrow> tensor procedure" where
  "adjacency_method normalize_adjacency A =
     next_do (attribute auto_normalize) (\<lambda>an.
       if an
       then next_do (attribute rooted_subtree) (\<lambda>rs. expression (normalize_adjacency A rs))
       else expression (Inr A))"

definition root_term_method :: "tensor \<Rightarrow> tensor \<Rightarrow> tensor procedure" where
  "root_term_method X A =
     next_do (expression (get_degrees A)) (\<lambda>D.
     next_do (expression (tf_div (scalar 1) D)) (\<lambda>Dinv.
     next_do (weight_method rooted_kernel) (\<lambda>rk.
     next_do (expression (matmul X rk)) (\<lambda>Xr.
       expression (tf_mul (expand_dims_last Dinv) Xr)))))"

definition pre_activation_method :: "normalizer \<Rightarrow> tensor list \<Rightarrow> tensor procedure" where
  "pre_activation_method normalize_adjacency inputs =
     next_do (expression (getitem inputs 0)) (\<lambda>X.
     next_do (expression (getitem inputs 1)) (\<lambda>A0.
     next_do (adjacency_method normalize_adjacency A0) (\<lambda>A.
     next_do (expression (matmul A X)) (\<lambda>AX.
     next_do (weight_method kernel) (\<lambda>k.
     next_do (expression (matmul AX k)) (\<lambda>y.
     next_do (next_do (attribute rooted_subtree) (\<lambda>rs.
                if rs
                then next_do (root_term_method X A) (\<lambda>root. expression (tf_add y root))
                else expression (Inr y))) (\<lambda>y.
     next_do (next_do (attribute edge_kernel) (\<lambda>ek.
                if ek \<noteq> None
                then next_do (expression (getitem inputs 2)) (\<lambda>Z.
                     next_do (weight_method edge_kernel) (\<lambda>ek.
                     next_do (expression (einsum_ij_ijf_fg A Z ek)) (\<lambda>edge.
                       expression (tf_add y edge))))
                else expression (Inr y))) (\<lambda>y.
     next_do (attribute use_bias) (\<lambda>ub.
       if ub
       then next_do (weight_method bias) (\<lambda>b. expression (tf_add y b))
       else expression (Inr y))))))))))"

definition call_method :: "normalizer \<Rightarrow> tensor list \<Rightarrow> tensor procedure" where
  "call_method normalize_adjacency inputs =
     next_do (pre_activation_method normalize_adjacency inputs) (\<lambda>y.
     next_do (attribute activation) (\<lambda>act.
       expression (Inr (act y))))"

text \<open>
  The framework's \<^verbatim>\<open>Layer.__call__\<close> over the mutable layer: \<^verbatim>\<open>build\<close> and
  the assignment of \<^verbatim>\<open>built\<close> on the first application, then \<^verbatim>\<open>call\<close>.
\<close>

definition Layer_call_method :: "normalizer \<Rightarrow> tensor list \<Rightarrow> tensor procedure" where
  "Layer_call_method normalize_adjacency inputs =
     next_do (attribute built) (\<lambda>b.
     next_do (if b then expression (Inr ())
              else next_do (build_method (map shape inputs)) (\<lambda>_.
                     assign (\<lambda>self. self\<lparr>built := True\<rparr>))) (\<lambda>_.
       call_method normalize_adjacency inputs))"

section \<open>StackedGraphConvolution\<close>

text \<open>
  Every layer of the stack is a \<^verbatim>\<open>GraphConvolution\<close> with the linear activation and
  the defaults of the other options: no automatic normalization, a bias, the initializer
  \<^verbatim>\<open>'glorot_uniform'\<close> for the kernels (random: a parameter, one initializer for each
  layer) and zeros for the bias.
\<close>

record StackedGraphConvolution =
  num_layers :: int
  last_layer_only :: bool
  gc_layers :: "GraphConvolution list"
  model_activation :: "tensor \<Rightarrow> tensor"
  model_rooted_subtree :: bool

definition StackedGraphConvolution_init ::
  "(nat \<Rightarrow> initializer) \<Rightarrow> int \<Rightarrow> nat \<Rightarrow> bool \<Rightarrow> bool \<Rightarrow> StackedGraphConvolution" where
  "StackedGraphConvolution_init glorot_uniform n num_features llo rs =
     \<lparr>num_layers = n, last_layer_only = llo,
      gc_layers = map (\<lambda>i. GraphConvolution_init num_features False rs linear True
                            (glorot_uniform i) zeros) [0..<nat n],
      model_activation = relu, model_rooted_subtree = rs\<rparr>"

definition vocab_size :: "StackedGraphConvolution \<Rightarrow> int" where
  "vocab_size self = (if last_layer_only self then 1 else num_layers self)"

text \<open>
  The loop of \<^verbatim>\<open>StackedGraphConvolution.call\<close> over \<^verbatim>\<open>enumerate(self.gc_layers)\<close>.
  Applying a layer may build it, so the layers are returned as well.
\<close>

fun call_layers ::
  "normalizer \<Rightarrow> StackedGraphConvolution \<Rightarrow> tensor \<Rightarrow> tensor list \<Rightarrow> nat \<Rightarrow> GraphConvolution list
     \<Rightarrow> tensor \<Rightarrow> tensor list \<Rightarrow> error + (GraphConvolution list \<times> tensor list)" where
  "call_layers na self A rest index [] x outputs = Inr ([], outputs)"
| "call_layers na self A rest index (layer # layers) x outputs =
     and_then (Layer_call na layer ([x, A] @ rest)) (\<lambda>(layer', x').
       let outputs' = (if \<not> last_layer_only self \<or> index + 1 = length (gc_layers self)
                       then outputs @ [x'] else outputs)
       in and_then (call_layers na self A rest (index + 1) layers (model_activation self x') outputs')
            (\<lambda>(layers', outs). Inr (layer' # layers', outs)))"

definition StackedGraphConvolution_call ::
  "normalizer \<Rightarrow> StackedGraphConvolution \<Rightarrow> tensor list
     \<Rightarrow> error + (StackedGraphConvolution \<times> tensor list)" where
  "StackedGraphConvolution_call normalize_adjacency self inputs =
     and_then (getitem inputs 0) (\<lambda>x.
     and_then (getitem inputs 1) (\<lambda>A0.
     and_then (normalize_adjacency A0 (model_rooted_subtree self)) (\<lambda>A.
     and_then (call_layers normalize_adjacency self A (drop 2 inputs) 0 (gc_layers self) x [])
       (\<lambda>(layers', outputs). Inr (self\<lparr>gc_layers := layers'\<rparr>, outputs)))))"

section \<open>The formulas of the specification\<close>

text \<open>
  The entries the specification gives for the terms of the convolution, written over the
  indices: the aggregation \<open>A @ X @ kernel\<close>, the degree of a node (the row-sum of the
  adjacency), the root term \<open>(1/D) * (X @ rooted_kernel)\<close> and the edge term
  \<open>sum_j A[i,j] * (Z[i,j,:] . edge_kernel)\<close>.
\<close>

definition aggregate_entry :: "tensor \<Rightarrow> tensor \<Rightarrow> tensor \<Rightarrow> nat \<Rightarrow> nat \<Rightarrow> fl" where
  "aggregate_entry A X K i g =
     (\<Sum>k\<leftarrow>[0..<shape X ! 1]. (\<Sum>j\<leftarrow>[0..<shape A ! 1]. at2 A i j * at2 X j k) * at2 K k g)"

definition degree :: "tensor \<Rightarrow> nat \<Rightarrow> fl" where
  "degree A i = (\<Sum>j\<leftarrow>[0..<shape A ! 1]. at2 A i j)"

definition root_entry :: "tensor \<Rightarrow> tensor \<Rightarrow> tensor \<Rightarrow> nat \<Rightarrow> nat \<Rightarrow> fl" where
  "root_entry A X R i g =
     fl_div 1 (degree A i) * (\<Sum>k\<leftarrow>[0..<shape X ! 1]. at2 X i k * at2 R k g)"

definition edge_entry :: "tensor \<Rightarrow> tensor \<Rightarrow> tensor \<Rightarrow> nat \<Rightarrow> nat \<Rightarrow> fl" where
  "edge_entry A Z E i g =
     (\<Sum>j\<leftarrow>[0..<shape A ! 1]. \<Sum>f\<leftarrow>[0..<shape Z ! 2]. at2 A i j * at3 Z i j f * at2 E f g)"

definition pre_entry :: "GraphConvolution \<Rightarrow> tensor \<Rightarrow> tensor \<Rightarrow> tensor list \<Rightarrow> nat \<Rightarrow> nat \<Rightarrow> fl" where
  "pre_entry self X A rest i g =
     (let y0 = aggregate_entry A X (the (kernel self)) i g;
          y1 = (if rooted_subtree self
                then y0 + root_entry A X (the (rooted_kernel self)) i g else y0);
          y2 = (if edge_kernel self \<noteq> None
                then y1 + edge_entry A (hd rest) (the (edge_kernel self)) i g else y1)
      in if use_bias self then y2 + at1 (the (bias self)) g else y2)"

text \<open>
  The weights of a layer fit node features of width \<open>F\<close>: the kernel, and the bias and
  the rooted kernel when the options ask for them, exist with the shapes \<^verbatim>\<open>build\<close>
  gives them. The edge kernel, when there is one, fits the edge features that come as
  third input for a graph of \<open>N\<close> nodes.
\<close>

definition fits :: "tensor option \<Rightarrow> nat list \<Rightarrow> bool" where
  "fits w s = (case w of None \<Rightarrow> False | Some t \<Rightarrow> has_shape t s)"

definition ready :: "GraphConvolution \<Rightarrow> nat \<Rightarrow> bool" where
  "ready self F \<longleftrightarrow>
     fits (kernel self) [F, F_out self]
     \<and> (use_bias self \<longrightarrow> fits (bias self) [F_out self])
     \<and> (rooted_subtree self \<longrightarrow> fits (rooted_kernel self) [F, F_out self])"

definition edge_fits :: "GraphConvolution \<Rightarrow> nat \<Rightarrow> tensor list \<Rightarrow> bool" where
  "edge_fits self N rest =
     (case edge_kernel self of
        None \<Rightarrow> True
      | Some E \<Rightarrow> rest \<noteq> [] \<and> has_shape (hd rest) [N, N, shape E ! 0]
                 \<and> has_shape E [shape E ! 0, F_out self])"

section \<open>Example values\<close>

text \<open>
  Values for the examples: the initializer \<^verbatim>\<open>'ones'\<close>, the same initializer for
  every layer of a stack, a normalizer that returns the adjacency as it is, and a tensor
  of finite entries.
\<close>

definition ones :: initializer where
  "ones name shp p = 1"

definition for_each_layer :: "initializer \<Rightarrow> nat \<Rightarrow> initializer" where
  "for_each_layer init i = init"

definition identity_normalizer :: normalizer where
  "identity_normalizer A rs = Inr A"

definition finite_tensor :: "nat list \<Rightarrow> real list \<Rightarrow> tensor" where
  "finite_tensor s xs = \<lparr>shape = s, data = map Fin xs\<rparr>"

text \<open>
  A graph of two nodes joined by an edge of weight 2, with one feature on each node and
  one feature on each ordered pair of nodes; and a graph of one node with no edge.
\<close>

definition X_example :: tensor where
  "X_example = finite_tensor [2, 1] [1, 3]"

definition A_example :: tensor where
  "A_example = finite_tensor [2, 2] [0, 2, 2, 0]"

definition Z_example :: tensor where
  "Z_example = finite_tensor [2, 2, 1] [5, 6, 7, 8]"



text \<open>
  A graph of one node with a loop of weight 1, and a feature that is infinite, as the
  overflow of an earlier computation is.
\<close>

definition self_loop :: tensor where
  "self_loop = finite_tensor [1, 1] [1]"

definition unbounded_feature :: tensor where
  "unbounded_feature = \<lparr>shape = [1, 1], data = [PInf]\<rparr>"

section \<open>The state of a stack and the outputs of its layers\<close>

text \<open>
  The further inputs of a stack are forwarded to every layer: there is at most one, the
  edge features of a graph of \<open>N\<close> nodes or the empty tensor of shape \<open>(0,)\<close>.
  A layer of a stack is linear and does not normalize; it has either not been applied yet,
  or it has been built for node features of width \<open>F\<close>. The first layer of the list
  reads features of width \<open>F\<close> and every later one the \<open>nf\<close> features of the layer
  before it.
\<close>

definition rest_ok :: "nat \<Rightarrow> tensor list \<Rightarrow> bool" where
  "rest_ok N rest \<longleftrightarrow>
     length rest \<le> 1 \<and> (\<forall>Z\<in>set rest. shape Z = [0] \<or> has_shape Z [N, N, last (shape Z)])"

definition layer_ok :: "nat \<Rightarrow> nat \<Rightarrow> tensor list \<Rightarrow> GraphConvolution \<Rightarrow> bool" where
  "layer_ok N F rest l \<longleftrightarrow>
     activation l = linear \<and> \<not> auto_normalize l
     \<and> (if built l then ready l F \<and> edge_fits l N rest
        else edge_kernel l = None \<and> rest_ok N rest)"

fun layers_ok :: "nat \<Rightarrow> nat \<Rightarrow> nat \<Rightarrow> tensor list \<Rightarrow> GraphConvolution list \<Rightarrow> bool" where
  "layers_ok nf N F rest [] = True"
| "layers_ok nf N F rest (l # ls) =
     (F_out l = nf \<and> layer_ok N F rest l \<and> layers_ok nf N nf rest ls)"

text \<open>
  The outputs of the layers as the specification describes them: each is the value of a
  layer before any activation, and the ReLU of it is the input of the next layer.
\<close>

fun stack_values ::
  "normalizer \<Rightarrow> GraphConvolution list \<Rightarrow> tensor \<Rightarrow> tensor list \<Rightarrow> tensor \<Rightarrow> tensor list" where
  "stack_values na [] A rest x = []"
| "stack_values na (l # ls) A rest x =
     (case pre_activation na l (x # A # rest) of
        Inl e \<Rightarrow> []
      | Inr y \<Rightarrow> y # stack_values na ls A rest (relu y))"

section \<open>The tensor operations on operands of known shape\<close>

lemma shape_mat [simp]: "shape (mat n m f) = [n, m]"
  by (simp add: mat_def)

lemma has_shape_mat [simp]: "has_shape (mat n m f) [n, m]"
  by (simp add: mat_def has_shape_def)

lemma flat_index_less: "i < n \<Longrightarrow> j < m \<Longrightarrow> i * m + j < n * (m::nat)"
proof -
  assume a: "i < n" "j < m"
  then have "i * m + j < i * m + m" by simp
  also have "\<dots> = Suc i * m" by simp
  also have "\<dots> \<le> n * m" using a(1) by (intro mult_le_mono1) simp
  finally show ?thesis .
qed

lemma at2_mat [simp]: "i < n \<Longrightarrow> j < m \<Longrightarrow> at2 (mat n m f) i j = f i j"
  using flat_index_less [of i n j m] by (simp add: at2_def mat_def)

lemma mat_cong: "(\<And>i j. i < n \<Longrightarrow> j < m \<Longrightarrow> f i j = g i j) \<Longrightarrow> mat n m f = mat n m g"
proof -
  assume h: "\<And>i j. i < n \<Longrightarrow> j < m \<Longrightarrow> f i j = g i j"
  have "f (p div m) (p mod m) = g (p div m) (p mod m)" if "p < n * m" for p
  proof -
    from that have "0 < m" by (cases m) simp_all
    moreover from that have "p div m < n" by (simp add: less_mult_imp_div_less)
    ultimately show ?thesis by (simp add: h)
  qed
  then show ?thesis by (simp add: mat_def)
qed

lemma shape_vec [simp]: "shape (vec n f) = [n]"
  by (simp add: vec_def)

lemma at1_vec [simp]: "i < n \<Longrightarrow> at1 (vec n f) i = f i"
  by (simp add: vec_def at1_def)

lemma sum_upt_cong: "(\<And>k. k < n \<Longrightarrow> f k = g k) \<Longrightarrow> (\<Sum>k\<leftarrow>[0..<n]. f k) = (\<Sum>k\<leftarrow>[0..<n]. (g k :: fl))"
  by (rule arg_cong [where f = sum_list]) simp

lemma matmul_mat:
  "shape a = [n, k] \<Longrightarrow> shape b = [k, m] \<Longrightarrow>
   matmul a b = Inr (mat n m (\<lambda>i j. \<Sum>q\<leftarrow>[0..<k]. at2 a i q * at2 b q j))"
  by (simp add: matmul_def)

lemma bidx_less [simp]: "i < n \<Longrightarrow> bidx n i = i"
  by (auto simp: bidx_def)

lemma bidx_one [simp]: "bidx (Suc 0) i = 0"
  by (simp add: bidx_def)

lemma bdim_same [simp]: "bdim n n = Some n"
  by (simp add: bdim_def)

lemma bdim_one_left [simp]: "bdim (Suc 0) n = Some n"
  by (simp add: bdim_def)

lemma bdim_one_right [simp]: "bdim n (Suc 0) = Some n"
  by (simp add: bdim_def)

lemma elementwise_mat_mat:
  assumes "shape a = [n, m]" and "shape b = [n, m]"
  shows "elementwise f a b = Inr (mat n m (\<lambda>i j. f (at2 a i j) (at2 b i j)))"
proof -
  have "f (data a ! (bidx n (p div m) * m + bidx m (p mod m)))
          (data b ! (bidx n (p div m) * m + bidx m (p mod m)))
      = f (at2 a (p div m) (p mod m)) (at2 b (p div m) (p mod m))" if "p < n * m" for p
  proof -
    from that have "0 < m" by (cases m) simp_all
    moreover from that have "p div m < n" by (simp add: less_mult_imp_div_less)
    ultimately show ?thesis using assms by (simp add: at2_def)
  qed
  then show ?thesis using assms by (simp add: elementwise_def mat_def)
qed

lemma elementwise_mat_row:
  assumes "shape a = [n, m]" and "shape b = [m]"
  shows "elementwise f a b = Inr (mat n m (\<lambda>i j. f (at2 a i j) (at1 b j)))"
proof -
  have "f (data a ! (bidx n (p div m) * m + bidx m (p mod m)))
          (data b ! (bidx m (p mod m)))
      = f (at2 a (p div m) (p mod m)) (at1 b (p mod m))" if "p < n * m" for p
  proof -
    from that have "0 < m" by (cases m) simp_all
    moreover from that have "p div m < n" by (simp add: less_mult_imp_div_less)
    ultimately show ?thesis using assms by (simp add: at2_def at1_def)
  qed
  then show ?thesis using assms by (simp add: elementwise_def mat_def)
qed

lemma elementwise_col_mat:
  assumes "shape a = [n]" and "shape b = [n, m]"
  shows "elementwise f (expand_dims_last a) b = Inr (mat n m (\<lambda>i j. f (at1 a i) (at2 b i j)))"
proof -
  have "f (data a ! (bidx n (p div m)))
          (data b ! (bidx n (p div m) * m + bidx m (p mod m)))
      = f (at1 a (p div m)) (at2 b (p div m) (p mod m))" if "p < n * m" for p
  proof -
    from that have "0 < m" by (cases m) simp_all
    moreover from that have "p div m < n" by (simp add: less_mult_imp_div_less)
    ultimately show ?thesis using assms by (simp add: at2_def at1_def)
  qed
  then show ?thesis using assms by (simp add: elementwise_def mat_def expand_dims_last_def)
qed

lemma elementwise_scalar_vec:
  assumes "shape b = [n]"
  shows "elementwise f (scalar c) b = Inr (vec n (\<lambda>i. f c (at1 b i)))"
  using assms by (simp add: elementwise_def vec_def scalar_def at1_def)

lemma elementwise_scalar_mat:
  assumes "shape b = [n, m]"
  shows "elementwise f (scalar c) b = Inr (mat n m (\<lambda>i j. f c (at2 b i j)))"
proof -
  have "f c (data b ! (bidx n (p div m) * m + bidx m (p mod m)))
      = f c (at2 b (p div m) (p mod m))" if "p < n * m" for p
  proof -
    from that have "0 < m" by (cases m) simp_all
    moreover from that have "p div m < n" by (simp add: less_mult_imp_div_less)
    ultimately show ?thesis using assms by (simp add: at2_def)
  qed
  then show ?thesis using assms by (simp add: elementwise_def mat_def scalar_def)
qed

lemma get_degrees_vec:
  "shape a = [n, m] \<Longrightarrow> get_degrees a = Inr (vec n (\<lambda>i. \<Sum>j\<leftarrow>[0..<m]. at2 a i j))"
  by (simp add: get_degrees_def)

lemma einsum_mat:
  "shape a = [n, m] \<Longrightarrow> shape z = [n, m, fe] \<Longrightarrow> shape e = [fe, g] \<Longrightarrow>
   einsum_ij_ijf_fg a z e =
     Inr (mat n g (\<lambda>i c. \<Sum>j\<leftarrow>[0..<m]. \<Sum>f\<leftarrow>[0..<fe]. at2 a i j * at3 z i j f * at2 e f c))"
  by (simp add: einsum_ij_ijf_fg_def)


lemma and_then_Inr [simp]: "and_then (Inr x) f = f x"
  by (simp add: and_then_def)

lemma and_then_Inl [simp]: "and_then (Inl e) f = Inl e"
  by (simp add: and_then_def)

lemma aggregate_value:
  assumes "shape X = [N, F]" and "shape A = [M, N]" and "shape K = [F, G]"
  shows "and_then (matmul A X) (\<lambda>AX. matmul AX K) = Inr (mat M G (aggregate_entry A X K))"
proof -
  let ?AX = "mat M F (\<lambda>i j. \<Sum>q\<leftarrow>[0..<N]. at2 A i q * at2 X q j)"
  have "matmul A X = Inr ?AX"
    using assms by (simp add: matmul_mat)
  moreover have "matmul ?AX K = Inr (mat M G (\<lambda>i g. \<Sum>k\<leftarrow>[0..<F]. at2 ?AX i k * at2 K k g))"
    using assms by (simp add: matmul_mat)
  moreover have "mat M G (\<lambda>i g. \<Sum>k\<leftarrow>[0..<F]. at2 ?AX i k * at2 K k g) = mat M G (aggregate_entry A X K)"
  proof (intro mat_cong)
    fix i g
    assume i: "i < M"
    have "(\<Sum>k\<leftarrow>[0..<F]. at2 ?AX i k * at2 K k g)
        = (\<Sum>k\<leftarrow>[0..<F]. (\<Sum>j\<leftarrow>[0..<N]. at2 A i j * at2 X j k) * at2 K k g)"
      by (rule sum_upt_cong) (simp add: i)
    then show "(\<Sum>k\<leftarrow>[0..<F]. at2 ?AX i k * at2 K k g) = aggregate_entry A X K i g"
      using assms by (simp add: aggregate_entry_def)
  qed
  ultimately show ?thesis by simp
qed

lemma root_term_value:
  assumes "shape X = [N, F]" and "shape A = [N, M]"
    and "rooted_kernel self = Some R" and "shape R = [F, G]"
  shows "root_term self X A = Inr (mat N G (root_entry A X R))"
proof -
  let ?D = "vec N (\<lambda>i. \<Sum>j\<leftarrow>[0..<M]. at2 A i j)"
  let ?Dinv = "vec N (\<lambda>i. fl_div 1 (at1 ?D i))"
  let ?XR = "mat N G (\<lambda>i j. \<Sum>q\<leftarrow>[0..<F]. at2 X i q * at2 R q j)"
  have "get_degrees A = Inr ?D"
    using assms by (simp add: get_degrees_vec)
  moreover have "tf_div (scalar 1) ?D = Inr ?Dinv"
    by (simp add: tf_div_def elementwise_scalar_vec)
  moreover have "matmul X R = Inr ?XR"
    using assms by (simp add: matmul_mat)
  moreover have "tf_mul (expand_dims_last ?Dinv) ?XR = Inr (mat N G (\<lambda>i j. at1 ?Dinv i * at2 ?XR i j))"
    by (simp add: tf_mul_def elementwise_col_mat)
  moreover have "mat N G (\<lambda>i j. at1 ?Dinv i * at2 ?XR i j) = mat N G (root_entry A X R)"
    unfolding root_entry_def degree_def using assms
    by (intro mat_cong) simp
  ultimately show ?thesis
    using assms by (simp add: root_term_def weight_def)
qed

lemma tf_add_mat: "tf_add (mat n m f) (mat n m g) = Inr (mat n m (\<lambda>i j. f i j + g i j))"
proof -
  have "mat n m (\<lambda>i j. at2 (mat n m f) i j + at2 (mat n m g) i j) = mat n m (\<lambda>i j. f i j + g i j)"
    by (intro mat_cong) simp
  then show ?thesis
    by (simp add: tf_add_def elementwise_mat_mat)
qed

lemma tf_add_row: "shape b = [m] \<Longrightarrow> tf_add (mat n m f) b = Inr (mat n m (\<lambda>i j. f i j + at1 b j))"
proof -
  assume b: "shape b = [m]"
  have "mat n m (\<lambda>i j. at2 (mat n m f) i j + at1 b j) = mat n m (\<lambda>i j. f i j + at1 b j)"
    by (intro mat_cong) simp
  then show ?thesis
    using b by (simp add: tf_add_def elementwise_mat_row)
qed

lemma edge_value:
  "shape A = [N, M] \<Longrightarrow> shape Z = [N, M, Fe] \<Longrightarrow> shape E = [Fe, G] \<Longrightarrow>
   einsum_ij_ijf_fg A Z E = Inr (mat N G (edge_entry A Z E))"
  by (simp add: einsum_mat, intro mat_cong) (simp add: edge_entry_def)

lemma fitsD: "fits w s \<Longrightarrow> \<exists>t. w = Some t \<and> shape t = s \<and> length (data t) = prod_list s"
  by (cases w) (simp_all add: fits_def has_shape_def)

lemma pre_activation_value:
  assumes X: "shape X = [N, F]"
    and A: "adjacency na self A0 = Inr A" "shape A = [N, N]"
    and r: "ready self F"
    and e: "edge_fits self N rest"
  shows "pre_activation na self (X # A0 # rest) = Inr (mat N (F_out self) (pre_entry self X A rest))"
proof -
  let ?G = "F_out self"
  obtain K where K: "kernel self = Some K" "shape K = [F, ?G]"
    using r fitsD unfolding ready_def by blast
  have agg: "and_then (matmul A X) (\<lambda>AX. and_then (weight (kernel self)) (\<lambda>k. and_then (matmul AX k) f))
      = f (mat N ?G (aggregate_entry A X K))" for f :: "tensor \<Rightarrow> error + tensor"
    using aggregate_value [OF X A(2) K(2)] K(1)
    by (auto simp: and_then_def weight_def split: sum.splits)
  have g0: "getitem (X # A0 # rest) 0 = Inr X" and g1: "getitem (X # A0 # rest) 1 = Inr A0"
    by (simp_all add: getitem_def)
  let ?y0 = "aggregate_entry A X K"
  let ?y1 = "\<lambda>i g. if rooted_subtree self then ?y0 i g + root_entry A X (the (rooted_kernel self)) i g else ?y0 i g"
  let ?y2 = "\<lambda>i g. if edge_kernel self \<noteq> None then ?y1 i g + edge_entry A (hd rest) (the (edge_kernel self)) i g else ?y1 i g"
  let ?y3 = "\<lambda>i g. if use_bias self then ?y2 i g + at1 (the (bias self)) g else ?y2 i g"
  have s1: "(if rooted_subtree self then and_then (root_term self X A) (tf_add (mat N ?G ?y0)) else Inr (mat N ?G ?y0))
      = Inr (mat N ?G ?y1)"
  proof (cases "rooted_subtree self")
    case True
    then obtain R where R: "rooted_kernel self = Some R" "shape R = [F, ?G]"
      using r fitsD unfolding ready_def by blast
    show ?thesis
      using True R root_term_value [OF X A(2) R] by (simp add: tf_add_mat)
  next
    case False
    then show ?thesis by simp
  qed
  have s2: "(if edge_kernel self \<noteq> None
             then and_then (getitem (X # A0 # rest) 2) (\<lambda>Z.
                  and_then (weight (edge_kernel self)) (\<lambda>ek.
                  and_then (einsum_ij_ijf_fg A Z ek) (tf_add (mat N ?G ?y1))))
             else Inr (mat N ?G ?y1))
      = Inr (mat N ?G ?y2)"
  proof (cases "edge_kernel self")
    case None
    then show ?thesis by simp
  next
    case (Some E)
    with e have E: "rest \<noteq> []" "shape (hd rest) = [N, N, shape E ! 0]" "shape E = [shape E ! 0, ?G]"
      by (simp_all add: edge_fits_def has_shape_def)
    from E(1) have g: "getitem (X # A0 # rest) 2 = Inr (hd rest)"
      by (cases rest) (simp_all add: getitem_def)
    show ?thesis
      using Some g edge_value [OF A(2) E(2) E(3)] by (simp add: weight_def tf_add_mat)
  qed
  have s3: "(if use_bias self then and_then (weight (bias self)) (tf_add (mat N ?G ?y2)) else Inr (mat N ?G ?y2))
      = Inr (mat N ?G ?y3)"
  proof (cases "use_bias self")
    case True
    then obtain b where b: "bias self = Some b" "shape b = [?G]"
      using r fitsD unfolding ready_def by blast
    show ?thesis
      using True b by (simp add: weight_def tf_add_row)
  next
    case False
    then show ?thesis by simp
  qed
  have "pre_activation na self (X # A0 # rest) = Inr (mat N ?G ?y3)"
    unfolding pre_activation_def g0 g1 and_then_Inr A(1) agg s1 s2 s3 ..
  moreover have "?y3 = pre_entry self X A rest"
    by (intro ext) (simp add: pre_entry_def Let_def K(1))
  ultimately show ?thesis by simp
qed

section \<open>Building and applying a layer\<close>

lemma has_shape_add_weight [simp]: "has_shape (add_weight s init name) s"
  by (simp add: add_weight_def has_shape_def)

lemma fits_add_weight [simp]: "fits (Some (add_weight s init name)) s"
  by (simp add: fits_def)

lemma length_data_add_weight [simp]: "length (data (add_weight s init name)) = prod_list s"
  by (simp add: add_weight_def)

lemma shape_add_weight [simp]: "shape (add_weight s init name) = s"
  by (simp add: add_weight_def)

lemma build_two:
  "build self [[N, F], s] =
     Inr (self\<lparr>kernel := Some (add_weight [F, F_out self] (kernel_initializer self) ''kernel''),
              bias := (if use_bias self
                       then Some (add_weight [F_out self] (bias_initializer self) ''bias'')
                       else bias self),
              rooted_kernel := (if rooted_subtree self
                       then Some (add_weight [F, F_out self] (kernel_initializer self) ''rooted_kernel'')
                       else rooted_kernel self)\<rparr>)"
  by (simp add: build_def getitem_def last_item_def Let_def)

lemma build_three:
  "build self [[N, F], s, z] =
     (if z = [] then Inl IndexError else
     Inr (self\<lparr>kernel := Some (add_weight [F, F_out self] (kernel_initializer self) ''kernel''),
              bias := (if use_bias self
                       then Some (add_weight [F_out self] (bias_initializer self) ''bias'')
                       else bias self),
              rooted_kernel := (if rooted_subtree self
                       then Some (add_weight [F, F_out self] (kernel_initializer self) ''rooted_kernel'')
                       else rooted_kernel self),
              edge_kernel := (if z \<noteq> [0]
                       then Some (add_weight [last z, F_out self] (kernel_initializer self) ''edge_kernel'')
                       else edge_kernel self)\<rparr>))"
  by (simp add: build_def getitem_def last_item_def Let_def)

lemma build_ready: "build self0 input_shape = Inr self \<Longrightarrow> ready self (last (input_shape ! 0))"
  by (auto simp: build_def and_then_def getitem_def last_item_def Let_def ready_def
      split: if_splits)

lemma call_linear:
  "activation self = linear \<Longrightarrow> call na self inputs = pre_activation na self inputs"
  by (cases "pre_activation na self inputs") (simp_all add: call_def linear_def)

lemma Layer_call_built:
  "built self \<Longrightarrow> Layer_call na self inputs = and_then (call na self inputs) (\<lambda>y. Inr (self, y))"
  by (simp add: Layer_call_def)

lemma Layer_call_ok:
  assumes ok: "layer_ok N F rest l" and x: "shape x = [N, F]" and A: "shape A = [N, N]"
  shows "\<exists>l'. Layer_call na l (x # A # rest) = Inr (l', mat N (F_out l) (pre_entry l' x A rest))
              \<and> pre_activation na l' (x # A # rest) = Inr (mat N (F_out l) (pre_entry l' x A rest))
              \<and> built l' \<and> layer_ok N F rest l' \<and> F_out l' = F_out l"
proof (cases "built l")
  case True
  with ok have r: "ready l F" and e: "edge_fits l N rest" and lin: "activation l = linear"
    and an: "adjacency na l A = Inr A"
    by (simp_all add: layer_ok_def adjacency_def)
  have "pre_activation na l (x # A # rest) = Inr (mat N (F_out l) (pre_entry l x A rest))"
    by (rule pre_activation_value [OF x an A r e])
  then show ?thesis
    using True ok lin by (intro exI [of _ l]) (simp add: Layer_call_built call_linear)
next
  case False
  with ok have ek: "edge_kernel l = None" and ro: "rest_ok N rest" and lin: "activation l = linear"
    and an: "\<not> auto_normalize l"
    by (simp_all add: layer_ok_def)
  from ro have "rest = [] \<or> (\<exists>Z. rest = [Z] \<and> (shape Z = [0] \<or> has_shape Z [N, N, last (shape Z)]))"
    by (cases rest) (auto simp: rest_ok_def)
  then obtain l1 where b: "build l (map shape (x # A # rest)) = Inr l1"
    and r1: "ready l1 F" and e1: "edge_fits l1 N rest" and c1: "activation l1 = linear"
      "\<not> auto_normalize l1" "F_out l1 = F_out l"
  proof (elim disjE exE conjE)
    assume "rest = []"
    then show ?thesis
      using x A ek lin an by (intro that [of "projr (build l [[N, F], [N, N]])"])
        (simp_all add: build_two ready_def edge_fits_def)
  next
    fix Z assume "rest = [Z]" "shape Z = [0]"
    then show ?thesis
      using x A ek lin an by (intro that [of "projr (build l [[N, F], [N, N], [0]])"])
        (simp_all add: build_three ready_def edge_fits_def)
  next
    fix Z assume Z: "rest = [Z]" "has_shape Z [N, N, last (shape Z)]"
    define Fe where "Fe = last (shape Z)"
    have s: "shape Z = [N, N, Fe]"
      using Z(2) unfolding has_shape_def Fe_def by (rule conjunct1)
    have d: "length (data Z) = prod_list [N, N, Fe]"
      using Z(2) unfolding has_shape_def Fe_def by (rule conjunct2)
    show ?thesis
      using x A ek lin an Z(1) d
      by (intro that [of "projr (build l [[N, F], [N, N], [N, N, Fe]])"])
        (simp_all add: s build_three ready_def edge_fits_def has_shape_def)
  qed
  let ?l' = "l1\<lparr>built := True\<rparr>"
  have r: "ready ?l' F" and e: "edge_fits ?l' N rest" and lin': "activation ?l' = linear"
    and an': "adjacency na ?l' A = Inr A"
    using r1 e1 c1 by (simp_all add: ready_def edge_fits_def adjacency_def split: option.splits)
  have "pre_activation na ?l' (x # A # rest) = Inr (mat N (F_out ?l') (pre_entry ?l' x A rest))"
    by (rule pre_activation_value [OF x an' A r e])
  then show ?thesis
    using False b c1 r e lin'
    by (intro exI [of _ ?l']) (simp add: Layer_call_def call_linear layer_ok_def)
qed

section \<open>The loop over the layers of a stack\<close>

lemma shape_relu [simp]: "shape (relu t) = shape t"
  by (simp add: relu_def)

lemma has_shape_relu [simp]: "has_shape (relu t) s = has_shape t s"
  by (simp add: relu_def has_shape_def)

lemma call_layers_ok:
  assumes "layers_ok nf N F rest ls" and "shape x = [N, F]" and "shape A = [N, N]"
    and "model_activation m = relu" and "index + length ls = length (gc_layers m)"
  shows "\<exists>ls'. call_layers na m A rest index ls x outs =
                 Inr (ls', outs @ (if last_layer_only m
                                   then (if ls = [] then [] else [last (stack_values na ls' A rest x)])
                                   else stack_values na ls' A rest x))
             \<and> length (stack_values na ls' A rest x) = length ls
             \<and> (\<forall>y\<in>set (stack_values na ls' A rest x). has_shape y [N, nf])
             \<and> length ls' = length ls \<and> (\<forall>l\<in>set ls'. built l)
             \<and> layers_ok nf N F rest ls'"
  using assms
proof (induction ls arbitrary: index x outs F)
  case Nil
  then show ?case by simp
next
  case (Cons l ls)
  from Cons.prems have ok: "layer_ok N F rest l" and nf: "F_out l = nf"
    and oks: "layers_ok nf N nf rest ls"
    by simp_all
  obtain l' where l': "Layer_call na l (x # A # rest) = Inr (l', mat N nf (pre_entry l' x A rest))"
    "pre_activation na l' (x # A # rest) = Inr (mat N nf (pre_entry l' x A rest))" "built l'"
    "layer_ok N F rest l'" "F_out l' = nf"
    using Layer_call_ok [OF ok Cons.prems(2) Cons.prems(3), of na] nf by auto
  let ?y = "mat N nf (pre_entry l' x A rest)"
  let ?outs = "if \<not> last_layer_only m \<or> index + 1 = length (gc_layers m) then outs @ [?y] else outs"
  have "shape (relu ?y) = [N, nf]" by simp
  moreover have "index + 1 + length ls = length (gc_layers m)"
    using Cons.prems(5) by simp
  ultimately obtain ls' where ls': "call_layers na m A rest (index + 1) ls (relu ?y) ?outs =
      Inr (ls', ?outs @ (if last_layer_only m
                         then (if ls = [] then [] else [last (stack_values na ls' A rest (relu ?y))])
                         else stack_values na ls' A rest (relu ?y)))"
    "length (stack_values na ls' A rest (relu ?y)) = length ls"
    "\<forall>y\<in>set (stack_values na ls' A rest (relu ?y)). has_shape y [N, nf]"
    "length ls' = length ls" "\<forall>l\<in>set ls'. built l" "layers_ok nf N nf rest ls'"
    using Cons.IH [OF oks _ Cons.prems(3) Cons.prems(4), of "relu ?y" "index + 1" ?outs] by blast
  have sv: "stack_values na (l' # ls') A rest x = ?y # stack_values na ls' A rest (relu ?y)"
    by (simp add: l'(2))
  have last_iff: "index + 1 = length (gc_layers m) \<longleftrightarrow> ls = []"
  proof
    assume "index + 1 = length (gc_layers m)"
    with Cons.prems(5) have "length ls = 0" by (simp del: length_0_conv)
    then show "ls = []" by simp
  next
    assume "ls = []"
    with Cons.prems(5) show "index + 1 = length (gc_layers m)" by simp
  qed
  have "call_layers na m A rest index (l # ls) x outs =
      Inr (l' # ls', outs @ (if last_layer_only m
                             then [last (stack_values na (l' # ls') A rest x)]
                             else stack_values na (l' # ls') A rest x))"
  proof (cases "ls = []")
    case True
    with ls'(2) have "stack_values na ls' A rest (relu ?y) = []" by simp
    with True show ?thesis
      using l'(1) ls'(1) last_iff
      by (cases "last_layer_only m") (simp_all add: sv l'(2) Let_def Cons.prems(4))
  next
    case False
    with ls'(2) have "stack_values na ls' A rest (relu ?y) \<noteq> []" by auto
    with False show ?thesis
      using l'(1) ls'(1) last_iff
      by (cases "last_layer_only m") (simp_all add: sv l'(2) Let_def Cons.prems(4))
  qed
  then show ?case
    using ls'(2-6) l'(3-5)
    by (intro exI [of _ "l' # ls'"]) (simp add: sv del: stack_values.simps call_layers.simps)
qed

section \<open>Zero weights\<close>




lemma zero_or_nan_zero [simp]: "zero_or_nan 0"
  by (simp add: zero_fl_def)










section \<open>The stages of the forward computation\<close>

lemma ready_edge_kernel_update [simp]: "ready (self\<lparr>edge_kernel := w\<rparr>) F = ready self F"
  by (simp add: ready_def)

lemma pre_activation_stages:
  "pre_activation na self inputs =
     and_then (getitem inputs 0) (\<lambda>X.
     and_then (getitem inputs 1) (\<lambda>A0.
     and_then (adjacency na self A0) (\<lambda>A.
     and_then (matmul A X) (\<lambda>AX.
     and_then (weight (kernel self)) (\<lambda>k.
     and_then (matmul AX k) (\<lambda>y.
     and_then (if rooted_subtree self
               then and_then (root_term self X A) (tf_add y)
               else Inr y) (edge_and_bias self A inputs)))))))"
  unfolding pre_activation_def edge_and_bias_def [abs_def] ..

lemma edge_and_bias_inputs:
  "edge_and_bias self A (X # A0 # rest) y = edge_and_bias self A (X' # A0' # rest) y"
  by (simp add: edge_and_bias_def getitem_def)

lemma edge_and_bias_flags [simp]:
  "edge_and_bias (self\<lparr>rooted_subtree := r, auto_normalize := a\<rparr>) A inputs y = edge_and_bias self A inputs y"
  by (simp add: edge_and_bias_def)

lemma ready_flags_off: "ready self F \<Longrightarrow> ready (self\<lparr>rooted_subtree := False, auto_normalize := a\<rparr>) F"
  by (simp add: ready_def)

section \<open>The methods and the functions they compute\<close>

lemma next_do_reads:
  "m self = (r, self) \<Longrightarrow> (\<And>x. f x self = (g x, self)) \<Longrightarrow> next_do m f self = (and_then r g, self)"
  by (cases r) (simp_all add: next_do_def)

lemma next_do_attribute [simp]: "next_do (attribute a) f self = f (a self) self"
  by (simp add: next_do_def attribute_def)

lemma expression_reads [simp]: "expression r self = (r, self)"
  by (simp add: expression_def)

lemma weight_method_reads [simp]: "weight_method w self = (weight (w self), self)"
  by (simp add: weight_method_def)

lemma adjacency_method_reads [simp]: "adjacency_method na A self = (adjacency na self A, self)"
  by (simp add: adjacency_method_def adjacency_def)

lemma root_term_method_reads [simp]: "root_term_method X A self = (root_term self X A, self)"
  unfolding root_term_method_def root_term_def
  by (intro next_do_reads) simp_all

lemma pre_activation_method_reads:
  "pre_activation_method na inputs self = (pre_activation na self inputs, self)"
  unfolding pre_activation_method_def pre_activation_def
  by (intro next_do_reads) (simp_all add: next_do_reads)

lemma call_method_reads: "call_method na inputs self = (call na self inputs, self)"
  unfolding call_method_def call_def
  by (intro next_do_reads pre_activation_method_reads) simp

lemma next_do_assign [simp]: "next_do (assign u) f self = f () (u self)"
  by (simp add: next_do_def assign_def)

lemma assign_apply [simp]: "assign u self = (Inr (), u self)"
  by (simp add: assign_def)

lemma next_do_expression:
  "next_do (expression r) f self = (case r of Inl e \<Rightarrow> (Inl e, self) | Inr x \<Rightarrow> f x self)"
  by (cases r) (simp_all add: next_do_def)

lemma next_do_assoc:
  "next_do (next_do m f) g = next_do m (\<lambda>x. next_do (f x) g)"
  by (rule ext) (simp add: next_do_def split: prod.splits sum.splits)

lemma next_do_if:
  "next_do (if c then m else n) f self = (if c then next_do m f self else next_do n f self)"
  by simp

lemma build_method_build:
  "build_method input_shape self = (Inr (), self') \<longleftrightarrow> build self input_shape = Inr self'"
proof (cases "length input_shape \<in> {2, 3}")
  case False
  then show ?thesis
    by (simp add: build_method_def build_def next_do_expression)
next
  case arity: True
  show ?thesis
  proof (cases "getitem input_shape 0")
    case (Inl e)
    then show ?thesis
      using arity by (simp add: build_method_def build_def next_do_expression and_then_def)
  next
    case s0: (Inr s0)
    show ?thesis
    proof (cases "last_item s0")
      case (Inl e)
      then show ?thesis
        using arity s0 by (simp add: build_method_def build_def next_do_expression and_then_def)
    next
      case F: (Inr F)
      show ?thesis
      proof (cases "length input_shape = 3 \<and> input_shape ! 2 \<noteq> [0]")
        case False
        then show ?thesis
          using arity s0 F
          by (auto simp: build_method_def build_def next_do_expression and_then_def Let_def
              next_do_if next_do_assoc)
      next
        case edge: True
        show ?thesis
        proof (cases "last_item (input_shape ! 2)")
          case (Inl e)
          then show ?thesis
            using arity s0 F edge
            by (simp add: build_method_def build_def next_do_expression and_then_def Let_def
                next_do_if next_do_assoc)
        next
          case (Inr F_edge)
          then show ?thesis
            using arity s0 F edge
            by (auto simp: build_method_def build_def next_do_expression and_then_def Let_def
                next_do_if next_do_assoc)
        qed
      qed
    qed
  qed
qed

lemma Layer_call_method_built:
  "built self \<Longrightarrow> Layer_call_method na inputs self = (call na self inputs, self)"
  by (simp add: Layer_call_method_def next_do_expression call_method_reads)

lemma Layer_call_method_unbuilt:
  "\<not> built self \<Longrightarrow>
   Layer_call_method na inputs self
     = (case build_method (map shape inputs) self of
          (Inl e, s) \<Rightarrow> (Inl e, s)
        | (Inr u, s) \<Rightarrow> (call na (s\<lparr>built := True\<rparr>) inputs, s\<lparr>built := True\<rparr>))"
  by (simp add: Layer_call_method_def next_do_assoc call_method_reads)
     (simp add: next_do_def call_method_reads split: prod.splits sum.splits)

lemma Layer_call_method_first:
  assumes "\<not> built self"
  shows "Layer_call_method na inputs self = (Inr y, self')
     \<longleftrightarrow> (\<exists>s. build self (map shape inputs) = Inr s \<and> self' = s\<lparr>built := True\<rparr>
              \<and> call na self' inputs = Inr y)"
proof (cases "build_method (map shape inputs) self")
  case (Pair r s)
  show ?thesis
  proof (cases r)
    case (Inl e)
    with Pair assms show ?thesis
      using build_method_build [of "map shape inputs" self]
      by (auto simp: Layer_call_method_unbuilt)
  next
    case (Inr u)
    with Pair have "build self (map shape inputs) = Inr s"
      using build_method_build [of "map shape inputs" self s] by simp
    with Pair Inr assms show ?thesis
      by (auto simp: Layer_call_method_unbuilt)
  qed
qed

lemma Layer_call_method_Layer_call:
  "Layer_call_method na inputs self = (Inr y, self') \<longleftrightarrow> Layer_call na self inputs = Inr (self', y)"
proof (cases "built self")
  case True
  then show ?thesis
    by (cases "call na self inputs") (auto simp: Layer_call_method_built Layer_call_def)
next
  case False
  then show ?thesis
    unfolding Layer_call_method_first [OF False]
    by (cases "build self (map shape inputs)")
       (auto simp: Layer_call_def and_then_def split: sum.splits)
qed

section \<open>The forward computation of a layer\<close>

text \<open>
  Claim C1. A layer without bias, with the linear activation, without the rooted term
  and without automatic normalization, whose kernel has been built for the width of the
  node features and which has no edge kernel (it was built for two inputs), returns on
  the two inputs \<open>[X, A]\<close> of compatible shapes exactly the product
  \<open>A @ X @ kernel\<close>: both products exist, the second is the value returned, and
  its entries are those of the aggregation.
\<close>

theorem call_is_aggregation:
  assumes "\<not> use_bias self" and "activation self = linear"
    and "\<not> rooted_subtree self" and "\<not> auto_normalize self"
    and "edge_kernel self = None"
    and "kernel self = Some K" and "has_shape K [F, F_out self]"
    and "has_shape X [N, F]" and "has_shape A [M, N]"
  shows "\<exists>AX P. matmul A X = Inr AX \<and> matmul AX K = Inr P \<and> call na self [X, A] = Inr P
           \<and> P = mat M (F_out self) (aggregate_entry A X K)"
proof -
  let ?AX = "mat M F (\<lambda>i j. \<Sum>q\<leftarrow>[0..<N]. at2 A i q * at2 X q j)"
  have s: "shape X = [N, F]" "shape A = [M, N]" "shape K = [F, F_out self]"
    using assms by (simp_all add: has_shape_def)
  have AX: "matmul A X = Inr ?AX"
    using s by (simp add: matmul_mat)
  have P: "matmul ?AX K = Inr (mat M (F_out self) (aggregate_entry A X K))"
    using aggregate_value [OF s] by (simp add: AX)
  have "call na self [X, A] = Inr (mat M (F_out self) (aggregate_entry A X K))"
    using assms(1-6) AX P
    by (simp add: call_def pre_activation_def getitem_def adjacency_def weight_def linear_def)
  with AX P show ?thesis by blast
qed

theorem call_is_aggregation_witness:
  "\<not> use_bias (projr (build (GraphConvolution_init 1 False False linear False ones zeros) [[2, 1], [2, 2]]))
   \<and> edge_kernel (projr (build (GraphConvolution_init 1 False False linear False ones zeros) [[2, 1], [2, 2]])) = None
   \<and> has_shape X_example [2, 1] \<and> has_shape A_example [2, 2]
   \<and> call identity_normalizer
        (projr (build (GraphConvolution_init 1 False False linear False ones zeros) [[2, 1], [2, 2]]))
        [X_example, A_example]
       = Inr (finite_tensor [2, 1] [6, 2])"
proof -
  let ?layer = "projr (build (GraphConvolution_init 1 False False linear False ones zeros) [[2, 1], [2, 2]])"
  let ?K = "add_weight [1, 1] ones ''kernel''"
  have h: "\<not> use_bias ?layer" "activation ?layer = linear" "\<not> rooted_subtree ?layer" "\<not> auto_normalize ?layer"
    "edge_kernel ?layer = None" "kernel ?layer = Some ?K" "has_shape ?K [1, F_out ?layer]"
    by (simp_all add: build_two GraphConvolution_init_def)
  have t: "has_shape X_example [2, 1]" "has_shape A_example [2, 2]"
    by (simp_all add: X_example_def A_example_def finite_tensor_def has_shape_def)
  from call_is_aggregation [OF h t, of identity_normalizer]
  have "call identity_normalizer ?layer [X_example, A_example]
      = Inr (mat 2 (F_out ?layer) (aggregate_entry A_example X_example ?K))"
    by blast
  moreover have "mat 2 (F_out ?layer) (aggregate_entry A_example X_example ?K) = finite_tensor [2, 1] [6, 2]"
    by code_simp
  ultimately show ?thesis
    using h t by simp
qed

text \<open>
  Claim C2, as the code has it. With \<^verbatim>\<open>rooted_subtree\<close>, whatever the other options
  are, the layer computes the aggregation \<open>A @ X @ kernel\<close> on the adjacency \<open>A\<close> it
  uses (the input, or the normalized input under \<^verbatim>\<open>auto_normalize\<close>) and adds to it
  the root term, whose entry at node \<open>i\<close> is \<open>(1/D[i]) * (X @ rooted_kernel)[i]\<close>,
  \<open>D[i]\<close> being the row-sum of that adjacency; the edge term and the bias are added
  next. The layer with the flag off, applied to that same adjacency, makes the same
  additions to the aggregation alone, so the root term is the one difference of the two
  computations: with no edge kernel and no bias the value with the flag is the value
  without it plus the root term. When every node has the degree \<open>d\<close>, the root term is
  \<open>(1/d) * (X @ rooted_kernel)\<close>. Nothing is subtracted and no entry is asked to be
  finite.
\<close>

theorem root_term_added:
  assumes rs: "rooted_subtree self"
    and X: "has_shape X [N, F]"
    and A: "adjacency na self A0 = Inr A" "has_shape A [N, N]"
    and r: "ready self F" and e: "edge_fits self N rest"
    and K: "kernel self = Some K" and R: "rooted_kernel self = Some R"
  shows "\<exists>agg root y u.
           and_then (matmul A X) (\<lambda>AX. matmul AX K) = Inr agg
         \<and> root_term self X A = Inr root
         \<and> root = mat N (F_out self)
                    (\<lambda>i g. fl_div 1 (degree A i) * (\<Sum>k\<leftarrow>[0..<F]. at2 X i k * at2 R k g))
         \<and> pre_activation na self (X # A0 # rest)
             = and_then (tf_add agg root) (edge_and_bias self A (X # A0 # rest))
         \<and> pre_activation na (self\<lparr>rooted_subtree := False, auto_normalize := False\<rparr>) (X # A # rest)
             = edge_and_bias self A (X # A0 # rest) agg
         \<and> pre_activation na self (X # A0 # rest) = Inr y
         \<and> pre_activation na (self\<lparr>rooted_subtree := False, auto_normalize := False\<rparr>) (X # A # rest) = Inr u
         \<and> (edge_kernel self = None \<and> \<not> use_bias self \<longrightarrow> u = agg \<and> tf_add u root = Inr y)
         \<and> ((\<forall>i<N. degree A i = d) \<longrightarrow>
               and_then (matmul X R) (tf_mul (scalar (fl_div 1 d))) = Inr root)"
proof -
  let ?G = "F_out self"
  let ?off = "self\<lparr>rooted_subtree := False, auto_normalize := False\<rparr>"
  let ?XR = "\<lambda>i g. \<Sum>k\<leftarrow>[0..<F]. at2 X i k * at2 R k g"
  let ?root = "mat N ?G (\<lambda>i g. fl_div 1 (degree A i) * ?XR i g)"
  let ?agg = "mat N ?G (aggregate_entry A X K)"
  have s: "shape X = [N, F]" "shape A = [N, N]"
    using X A(2) by (simp_all add: has_shape_def)
  have sK: "shape K = [F, ?G]"
    using r K by (simp add: ready_def fits_def has_shape_def)
  have sR: "shape R = [F, ?G]"
    using r rs R by (simp add: ready_def fits_def has_shape_def)
  have agg: "and_then (matmul A X) (\<lambda>AX. matmul AX K) = Inr ?agg"
    by (rule aggregate_value [OF s sK])
  have "root_term self X A = Inr (mat N ?G (root_entry A X R))"
    by (rule root_term_value [OF s R sR])
  moreover have "mat N ?G (root_entry A X R) = ?root"
    using s by (intro mat_cong) (simp add: root_entry_def)
  ultimately have root: "root_term self X A = Inr ?root"
    by simp
  have g: "getitem (X # A0 # rest) 0 = Inr X" "getitem (X # A0 # rest) 1 = Inr A0"
    "getitem (X # A # rest) 0 = Inr X" "getitem (X # A # rest) 1 = Inr A"
    by (simp_all add: getitem_def)
  have agg': "and_then (matmul A X) (\<lambda>AX. and_then (weight (kernel self)) (\<lambda>k. and_then (matmul AX k) f))
      = f ?agg" for f :: "tensor \<Rightarrow> error + tensor"
    using agg K by (auto simp: and_then_def weight_def split: sum.splits)
  have on: "pre_activation na self (X # A0 # rest)
      = and_then (tf_add ?agg ?root) (edge_and_bias self A (X # A0 # rest))"
    unfolding pre_activation_stages g and_then_Inr A(1) agg' using rs root by simp
  have off_adj: "adjacency na ?off A = Inr A"
    by (simp add: adjacency_def)
  have agg_off: "and_then (matmul A X) (\<lambda>AX. and_then (weight (kernel ?off)) (\<lambda>k. and_then (matmul AX k) f))
      = f ?agg" for f :: "tensor \<Rightarrow> error + tensor"
    using agg' [of f] by simp
  have off: "pre_activation na ?off (X # A # rest) = edge_and_bias self A (X # A0 # rest) ?agg"
    unfolding pre_activation_stages g and_then_Inr off_adj agg_off
    using edge_and_bias_inputs [of self A X A rest ?agg X A0] by simp
  let ?y = "mat N ?G (pre_entry self X A rest)"
  let ?u = "mat N ?G (pre_entry ?off X A rest)"
  have y: "pre_activation na self (X # A0 # rest) = Inr ?y"
    by (rule pre_activation_value [OF s(1) A(1) s(2) r e])
  have e': "edge_fits ?off N rest"
    using e by (simp add: edge_fits_def split: option.splits)
  have "pre_activation na ?off (X # A # rest) = Inr (mat N (F_out ?off) (pre_entry ?off X A rest))"
    by (rule pre_activation_value [OF s(1) off_adj s(2) ready_flags_off [OF r] e'])
  then have u: "pre_activation na ?off (X # A # rest) = Inr ?u"
    by simp
  have plain: "edge_kernel self = None \<and> \<not> use_bias self \<longrightarrow> ?u = ?agg \<and> tf_add ?u ?root = Inr ?y"
  proof
    assume "edge_kernel self = None \<and> \<not> use_bias self"
    then have eb: "edge_and_bias self A (X # A0 # rest) t = Inr t" for t
      by (simp add: edge_and_bias_def)
    obtain t where t: "tf_add ?agg ?root = Inr t"
      using tf_add_mat [of N ?G "aggregate_entry A X K"] by blast
    from on y t eb have "t = ?y"
      by simp
    moreover from off u eb have "?u = ?agg"
      by simp
    ultimately show "?u = ?agg \<and> tf_add ?u ?root = Inr ?y"
      using t by simp
  qed
  have uniform: "(\<forall>i<N. degree A i = d) \<longrightarrow>
      and_then (matmul X R) (tf_mul (scalar (fl_div 1 d))) = Inr ?root"
  proof
    assume d: "\<forall>i<N. degree A i = d"
    have "mat N ?G (\<lambda>i g. fl_div 1 d * at2 (mat N ?G ?XR) i g) = ?root"
      using d by (intro mat_cong) simp
    then show "and_then (matmul X R) (tf_mul (scalar (fl_div 1 d))) = Inr ?root"
      using s sR by (simp add: matmul_mat tf_mul_def elementwise_scalar_mat)
  qed
  show ?thesis
    apply (rule exI [of _ ?agg], rule exI [of _ ?root], rule exI [of _ ?y], rule exI [of _ ?u])
    apply (intro conjI)
            apply (rule agg)
           apply (rule root)
          apply (rule refl)
         apply (rule on)
        apply (rule off)
       apply (rule y)
      apply (rule u)
     apply (rule plain)
    apply (rule uniform)
    done
qed

theorem root_term_added_witness:
  "and_then (matmul A_example X_example) (\<lambda>AX. matmul AX (add_weight [1, 1] ones ''kernel''))
     = Inr (finite_tensor [2, 1] [6, 2])
   \<and> root_term
       (projr (build (GraphConvolution_init 1 True True linear False ones zeros) [[2, 1], [2, 2]]))
       X_example A_example
     = Inr (finite_tensor [2, 1] [1 / 2, 3 / 2])
   \<and> pre_activation identity_normalizer
       (projr (build (GraphConvolution_init 1 True True linear False ones zeros) [[2, 1], [2, 2]]))
       [X_example, A_example]
     = Inr (finite_tensor [2, 1] [13 / 2, 7 / 2])
   \<and> pre_activation identity_normalizer
       ((projr (build (GraphConvolution_init 1 True True linear False ones zeros) [[2, 1], [2, 2]]))
          \<lparr>rooted_subtree := False, auto_normalize := False\<rparr>)
       [X_example, A_example]
     = Inr (finite_tensor [2, 1] [6, 2])
   \<and> tf_add (finite_tensor [2, 1] [6, 2]) (finite_tensor [2, 1] [1 / 2, 3 / 2])
     = Inr (finite_tensor [2, 1] [13 / 2, 7 / 2])
   \<and> degree A_example 0 = Fin 2 \<and> degree A_example 1 = Fin 2
   \<and> and_then (matmul X_example (add_weight [1, 1] ones ''rooted_kernel''))
       (tf_mul (scalar (fl_div 1 (Fin 2))))
     = Inr (finite_tensor [2, 1] [1 / 2, 3 / 2])"
proof -
  let ?layer = "projr (build (GraphConvolution_init 1 True True linear False ones zeros) [[2, 1], [2, 2]])"
  let ?K = "add_weight [1, 1] ones ''kernel''"
  let ?R = "add_weight [1, 1] ones ''rooted_kernel''"
  have rs: "rooted_subtree ?layer"
    by (simp add: build_two GraphConvolution_init_def)
  have X: "has_shape X_example [2, 1]" and A: "has_shape A_example [2, 2]"
    by (simp_all add: X_example_def A_example_def finite_tensor_def has_shape_def)
  have adj: "adjacency identity_normalizer ?layer A_example = Inr A_example"
    by (simp add: adjacency_def identity_normalizer_def)
  have r: "ready ?layer 1" and e: "edge_fits ?layer 2 []"
    by (simp_all add: build_two GraphConvolution_init_def ready_def edge_fits_def)
  have K: "kernel ?layer = Some ?K" and R: "rooted_kernel ?layer = Some ?R"
    and plain: "edge_kernel ?layer = None \<and> \<not> use_bias ?layer"
    by (simp_all add: build_two GraphConvolution_init_def)
  have agg: "and_then (matmul A_example X_example) (\<lambda>AX. matmul AX ?K)
      = Inr (finite_tensor [2, 1] [6, 2])"
    and root: "root_term ?layer X_example A_example = Inr (finite_tensor [2, 1] [1 / 2, 3 / 2])"
    and y: "pre_activation identity_normalizer ?layer [X_example, A_example]
      = Inr (finite_tensor [2, 1] [13 / 2, 7 / 2])"
    and u: "pre_activation identity_normalizer
        (?layer\<lparr>rooted_subtree := False, auto_normalize := False\<rparr>) [X_example, A_example]
      = Inr (finite_tensor [2, 1] [6, 2])"
    by code_simp+
  have d: "degree A_example 0 = Fin 2" "degree A_example 1 = Fin 2"
    by code_simp+
  then have uniform: "\<forall>i<2. degree A_example i = Fin 2"
    by (simp add: less_Suc_eq numeral_2_eq_2)
  from root_term_added [where d = "Fin 2" and na = identity_normalizer and ?A0.0 = A_example,
      OF rs X adj A r e K R]
  obtain root' y' u' where root': "root_term ?layer X_example A_example = Inr root'"
    and y': "pre_activation identity_normalizer ?layer [X_example, A_example] = Inr y'"
    and u': "pre_activation identity_normalizer
        (?layer\<lparr>rooted_subtree := False, auto_normalize := False\<rparr>) [X_example, A_example] = Inr u'"
    and sum: "edge_kernel ?layer = None \<and> \<not> use_bias ?layer \<longrightarrow> tf_add u' root' = Inr y'"
    and scaled: "(\<forall>i<2. degree A_example i = Fin 2) \<longrightarrow>
        and_then (matmul X_example ?R) (tf_mul (scalar (fl_div 1 (Fin 2)))) = Inr root'"
    by blast
  from root root' have 1: "root' = finite_tensor [2, 1] [1 / 2, 3 / 2]"
    by simp
  from y y' have 2: "y' = finite_tensor [2, 1] [13 / 2, 7 / 2]"
    by simp
  from u u' have 3: "u' = finite_tensor [2, 1] [6, 2]"
    by simp
  from sum plain have "tf_add u' root' = Inr y'"
    by (rule mp)
  then have 4: "tf_add (finite_tensor [2, 1] [6, 2]) (finite_tensor [2, 1] [1 / 2, 3 / 2])
      = Inr (finite_tensor [2, 1] [13 / 2, 7 / 2])"
    unfolding 1 2 3 .
  from scaled uniform have "and_then (matmul X_example ?R) (tf_mul (scalar (fl_div 1 (Fin 2)))) = Inr root'"
    by (rule mp)
  then have 5: "and_then (matmul X_example ?R) (tf_mul (scalar (fl_div 1 (Fin 2))))
      = Inr (finite_tensor [2, 1] [1 / 2, 3 / 2])"
    unfolding 1 .
  from agg root y u 4 d 5 show ?thesis
    by blast
qed

text \<open>
  The claim C2 as the specification words it, the difference of the two outputs being
  the root term, fails where the outputs are infinite. On one node with a loop of weight
  1, so of uniform degree 1, and an infinite feature, the two outputs and the root term
  are all infinite, and the difference of the outputs is NaN.
\<close>

theorem root_term_added_counterexample:
  "rooted_subtree
     (projr (build (GraphConvolution_init 1 False True linear True ones zeros) [[1, 1], [1, 1]]))
   \<and> degree self_loop 0 = Fin 1
   \<and> pre_activation identity_normalizer
       (projr (build (GraphConvolution_init 1 False True linear True ones zeros) [[1, 1], [1, 1]]))
       [unbounded_feature, self_loop]
     = Inr \<lparr>shape = [1, 1], data = [PInf]\<rparr>
   \<and> pre_activation identity_normalizer
       ((projr (build (GraphConvolution_init 1 False True linear True ones zeros) [[1, 1], [1, 1]]))
          \<lparr>rooted_subtree := False\<rparr>)
       [unbounded_feature, self_loop]
     = Inr \<lparr>shape = [1, 1], data = [PInf]\<rparr>
   \<and> and_then (matmul unbounded_feature (add_weight [1, 1] ones ''rooted_kernel''))
       (tf_mul (scalar (fl_div 1 (Fin 1))))
     = Inr \<lparr>shape = [1, 1], data = [PInf]\<rparr>
   \<and> tf_sub \<lparr>shape = [1, 1], data = [PInf]\<rparr> \<lparr>shape = [1, 1], data = [PInf]\<rparr>
     = Inr \<lparr>shape = [1, 1], data = [NaN]\<rparr>"
  by code_simp






text \<open>
  Claim C9. \<^verbatim>\<open>call\<close>, run as the sequence of its statements on the layer as a
  mutable object, leaves the layer as it found it and returns the value or the exception
  of the function \<^verbatim>\<open>call\<close> of the layer: two calls in a row on the same inputs
  return twice the same output, or stop at the same exception, and leave the layer
  unchanged. An application of a built layer is such a call and nothing else. An
  application that returns, the first one included (which builds the weights and so does
  change the layer), leaves a built layer on which the same application returns the same
  output and which it leaves unchanged, weights included; it is the application the
  other theorems speak of.
\<close>

theorem call_repeatable:
  "call_method na inputs self = (call na self inputs, self)
   \<and> next_do (call_method na inputs) (\<lambda>y.
       next_do (call_method na inputs) (\<lambda>y'. expression (Inr (y, y')))) self
       = (map_sum id (\<lambda>y. (y, y)) (call na self inputs), self)
   \<and> (built self \<longrightarrow> Layer_call_method na inputs self = (call na self inputs, self))
   \<and> (Layer_call_method na inputs self = (Inr y, self') \<longrightarrow>
        built self' \<and> Layer_call_method na inputs self' = (Inr y, self')
      \<and> Layer_call na self inputs = Inr (self', y))"
proof (intro conjI impI)
  show "call_method na inputs self = (call na self inputs, self)"
    by (rule call_method_reads)
next
  show "next_do (call_method na inputs) (\<lambda>y.
       next_do (call_method na inputs) (\<lambda>y'. expression (Inr (y, y')))) self
       = (map_sum id (\<lambda>y. (y, y)) (call na self inputs), self)"
    by (cases "call na self inputs") (simp_all add: next_do_def call_method_reads)
next
  assume "built self"
  then show "Layer_call_method na inputs self = (call na self inputs, self)"
    by (rule Layer_call_method_built)
next
  assume first: "Layer_call_method na inputs self = (Inr y, self')"
  then show "Layer_call na self inputs = Inr (self', y)"
    by (simp add: Layer_call_method_Layer_call)
  from first have *: "built self' \<and> call na self' inputs = Inr y"
    by (cases "built self") (auto simp: Layer_call_method_built Layer_call_method_first)
  then show "built self'" ..
  from * show "Layer_call_method na inputs self' = (Inr y, self')"
    by (simp add: Layer_call_method_built)
qed

theorem call_repeatable_witness:
  "Layer_call_method identity_normalizer [X_example, A_example]
      (GraphConvolution_init 1 False True linear True ones zeros)
     = (Inr (finite_tensor [2, 1] [13 / 2, 7 / 2]),
        (projr (build (GraphConvolution_init 1 False True linear True ones zeros) [[2, 1], [2, 2]]))
          \<lparr>built := True\<rparr>)
   \<and> built ((projr (build (GraphConvolution_init 1 False True linear True ones zeros) [[2, 1], [2, 2]]))
          \<lparr>built := True\<rparr>)
   \<and> Layer_call_method identity_normalizer [X_example, A_example]
        ((projr (build (GraphConvolution_init 1 False True linear True ones zeros) [[2, 1], [2, 2]]))
           \<lparr>built := True\<rparr>)
     = (Inr (finite_tensor [2, 1] [13 / 2, 7 / 2]),
        (projr (build (GraphConvolution_init 1 False True linear True ones zeros) [[2, 1], [2, 2]]))
          \<lparr>built := True\<rparr>)
   \<and> fst (build_method [[2, 1], [2, 2]] (GraphConvolution_init 1 False True linear True ones zeros))
       = Inr ()
   \<and> kernel (snd (build_method [[2, 1], [2, 2]]
         (GraphConvolution_init 1 False True linear True ones zeros)))
       = Some (finite_tensor [1, 1] [1])
   \<and> kernel (GraphConvolution_init 1 False True linear True ones zeros) = None"
proof -
  let ?fresh = "GraphConvolution_init 1 False True linear True ones zeros"
  let ?layer = "(projr (build ?fresh [[2, 1], [2, 2]]))\<lparr>built := True\<rparr>"
  have value_of_call:
    "call identity_normalizer ?layer [X_example, A_example] = Inr (finite_tensor [2, 1] [13 / 2, 7 / 2])"
    by code_simp
  have built: "build ?fresh (map shape [X_example, A_example]) = Inr (projr (build ?fresh [[2, 1], [2, 2]]))"
    by (simp add: build_two GraphConvolution_init_def X_example_def A_example_def finite_tensor_def)
  have fresh: "\<not> built ?fresh"
    by (simp add: GraphConvolution_init_def)
  have first: "Layer_call_method identity_normalizer [X_example, A_example] ?fresh
      = (Inr (finite_tensor [2, 1] [13 / 2, 7 / 2]), ?layer)"
    unfolding Layer_call_method_first [OF fresh] using value_of_call built by simp
  have assigned: "build_method [[2, 1], [2, 2]] ?fresh = (Inr (), projr (build ?fresh [[2, 1], [2, 2]]))"
    unfolding build_method_build by (simp add: build_two GraphConvolution_init_def)
  have kernel: "kernel (projr (build ?fresh [[2, 1], [2, 2]])) = Some (finite_tensor [1, 1] [1])"
    by code_simp
  have none: "kernel ?fresh = None"
    by (simp add: GraphConvolution_init_def)
  from call_repeatable [where self = ?fresh and na = identity_normalizer
      and inputs = "[X_example, A_example]" and self' = ?layer
      and y = "finite_tensor [2, 1] [13 / 2, 7 / 2]"] first assigned kernel none
  show ?thesis
    by simp
qed

text \<open>
  Claim C10. A layer built without an edge kernel, because it was built for two inputs
  or for a third input of shape \<open>(0,)\<close>, has no edge kernel, and called with a third
  input it returns what it returns on the first two inputs alone: the third input is
  never read. On node features of the width the layer was built for and an adjacency of
  compatible shape, the call with the third input returns a value.
\<close>

theorem third_input_ignored:
  assumes "edge_kernel self0 = None" and "build self0 input_shape = Inr self"
    and "length input_shape = 2 \<or> input_shape ! 2 = [0]"
  shows "edge_kernel self = None
       \<and> call na self [X, A, Z] = call na self [X, A]
       \<and> Layer_call na (self\<lparr>built := True\<rparr>) [X, A, Z]
           = Layer_call na (self\<lparr>built := True\<rparr>) [X, A]
       \<and> (has_shape X [N, last (input_shape ! 0)] \<and> adjacency na self A = Inr A'
            \<and> has_shape A' [N, N] \<longrightarrow> (\<exists>y. call na self [X, A, Z] = Inr y))"
proof -
  have ek: "edge_kernel self = None"
    using assms
    by (auto simp: build_def and_then_def getitem_def last_item_def Let_def split: if_splits)
  have pre: "pre_activation na l [X, A, Z] = pre_activation na l [X, A]" if "edge_kernel l = None" for l
    using that by (simp add: pre_activation_def getitem_def)
  have same: "call na l [X, A, Z] = call na l [X, A]" if "edge_kernel l = None" for l
    using pre [OF that] by (simp add: call_def)
  have "\<exists>y. call na self [X, A, Z] = Inr y"
    if "has_shape X [N, last (input_shape ! 0)]" "adjacency na self A = Inr A'" "has_shape A' [N, N]"
  proof -
    have "pre_activation na self (X # A # [Z])
        = Inr (mat N (F_out self) (pre_entry self X A' [Z]))"
      using that ek build_ready [OF assms(2)]
      by (intro pre_activation_value) (simp_all add: has_shape_def edge_fits_def)
    then show ?thesis
      by (simp add: call_def)
  qed
  with same [of self] same [of "self\<lparr>built := True\<rparr>"] ek show ?thesis
    by (simp add: Layer_call_def)
qed

theorem third_input_ignored_witness:
  "edge_kernel (GraphConvolution_init 1 False True linear True ones zeros) = None
   \<and> call identity_normalizer
        (projr (build (GraphConvolution_init 1 False True linear True ones zeros) [[2, 1], [2, 2]]))
        [X_example, A_example, Z_example]
       = Inr (finite_tensor [2, 1] [13 / 2, 7 / 2])"
proof -
  let ?fresh = "GraphConvolution_init 1 False True linear True ones zeros"
  let ?layer = "projr (build ?fresh [[2, 1], [2, 2]])"
  have a: "edge_kernel ?fresh = None"
    by (simp add: GraphConvolution_init_def)
  have b: "build ?fresh [[2, 1], [2, 2]] = Inr ?layer"
    by (simp add: build_two)
  have c: "length [[2, 1], [2, 2::nat]] = 2 \<or> [[2, 1], [2, 2]] ! 2 = [0::nat]"
    by simp
  have "call identity_normalizer ?layer [X_example, A_example] = Inr (finite_tensor [2, 1] [13 / 2, 7 / 2])"
    by code_simp
  with third_input_ignored [where na = identity_normalizer and X = X_example and A = A_example
      and Z = Z_example, OF a b c] a
  show ?thesis by simp
qed

section \<open>Weight instantiation\<close>

lemma build_assertion:
  "build self input_shape = Inl AssertionError \<longleftrightarrow> length input_shape \<notin> {2, 3}"
  by (auto simp: build_def and_then_def getitem_def last_item_def Let_def split: sum.splits if_splits)

text \<open>
  Claim C8. Weight instantiation fails on the assertion of the arity if and only if the
  number of inputs is neither 2 nor 3. When every input is a tensor with at least one
  axis, as node features, an adjacency matrix and edge features are, it fails in no other
  way: it fails if and only if the number of inputs is neither 2 nor 3, and succeeds
  with 2 or 3 inputs. (\<^verbatim>\<open>build\<close> reads the last dimension of the first shape, and of
  the third, which a tensor without axes does not have.)
\<close>

theorem build_arity:
  "(build self input_shape = Inl AssertionError \<longleftrightarrow> length input_shape \<notin> {2, 3})
   \<and> ([] \<notin> set input_shape \<longrightarrow>
        ((\<exists>e. build self input_shape = Inl e) \<longleftrightarrow> length input_shape \<notin> {2, 3}))"
proof (intro conjI impI)
  show "build self input_shape = Inl AssertionError \<longleftrightarrow> length input_shape \<notin> {2, 3}"
    by (rule build_assertion)
next
  assume axes: "[] \<notin> set input_shape"
  have nz: "i < length input_shape \<Longrightarrow> input_shape ! i \<noteq> []" for i
    using axes by (metis nth_mem)
  have "length input_shape \<in> {2, 3} \<Longrightarrow> \<exists>l. build self input_shape = Inr l"
    using nz [of 0] nz [of 2]
    by (auto simp: build_def and_then_def getitem_def last_item_def Let_def)
  moreover have "length input_shape \<notin> {2, 3} \<Longrightarrow> build self input_shape = Inl AssertionError"
    by (simp add: build_def)
  ultimately show "(\<exists>e. build self input_shape = Inl e) \<longleftrightarrow> length input_shape \<notin> {2, 3}"
    by (metis Inl_Inr_False)
qed

theorem build_arity_witness:
  "[] \<notin> set [[2, 3], [2, 2], [2, 2, 5::nat]]
   \<and> \<not> (\<exists>e. build (GraphConvolution_init 4 False True linear True ones zeros)
               [[2, 3], [2, 2], [2, 2, 5]] = Inl e)
   \<and> [] \<notin> set [[2, 3::nat]]
   \<and> build (GraphConvolution_init 4 False True linear True ones zeros) [[2, 3]] = Inl AssertionError"
  using build_arity [of "GraphConvolution_init 4 False True linear True ones zeros"
      "[[2, 3], [2, 2], [2, 2, 5]]"]
    build_arity [of "GraphConvolution_init 4 False True linear True ones zeros" "[[2, 3]]"]
  by simp

text \<open>
  Claim C4, as the code has it. On a layer that has no edge kernel yet, \<^verbatim>\<open>build\<close>
  creates one if and only if there is a third input and the shape of that input is not
  the shape \<open>(0,)\<close> of the empty vector; the edge kernel then has the shape
  \<open>(F_edge, F_out)\<close>, with \<open>F_edge\<close> the last dimension of the third input. The test
  is on the whole shape, not on the last dimension.
\<close>

theorem build_edge_kernel:
  assumes "edge_kernel self = None" and "build self input_shape = Inr self'"
  shows "(edge_kernel self' \<noteq> None \<longleftrightarrow> length input_shape = 3 \<and> input_shape ! 2 \<noteq> [0])
       \<and> (\<forall>E. edge_kernel self' = Some E \<longrightarrow> has_shape E [last (input_shape ! 2), F_out self])"
  using assms
  by (auto simp: build_def and_then_def getitem_def last_item_def Let_def add_weight_def has_shape_def
      split: if_splits)

theorem build_edge_kernel_witness:
  "edge_kernel (GraphConvolution_init 4 False False linear True ones zeros) = None
   \<and> build (GraphConvolution_init 4 False False linear True ones zeros) [[2, 3], [2, 2], [2, 2, 5]]
       = Inr (projr (build (GraphConvolution_init 4 False False linear True ones zeros)
                      [[2, 3], [2, 2], [2, 2, 5]]))
   \<and> edge_kernel (projr (build (GraphConvolution_init 4 False False linear True ones zeros)
                           [[2, 3], [2, 2], [2, 2, 5]])) \<noteq> None
   \<and> has_shape (the (edge_kernel (projr (build (GraphConvolution_init 4 False False linear True ones zeros)
                           [[2, 3], [2, 2], [2, 2, 5]])))) [5, 4]"
proof -
  let ?l = "GraphConvolution_init 4 False False linear True ones zeros"
  let ?s = "[[2, 3], [2, 2], [2, 2, 5::nat]]"
  have a: "edge_kernel ?l = None"
    by (simp add: GraphConvolution_init_def)
  have b: "build ?l ?s = Inr (projr (build ?l ?s))"
    by (simp add: build_def GraphConvolution_init_def getitem_def last_item_def Let_def)
  have c: "F_out ?l = 4"
    by (simp add: GraphConvolution_init_def)
  show ?thesis
    using a b c build_edge_kernel [OF a b] by auto
qed

text \<open>
  The claim C4 as the specification words it fails: a third input of shape \<open>(2, 2, 0)\<close>
  has a feature axis of length zero, and an edge kernel of shape \<open>(0, 4)\<close> is created.
\<close>

theorem build_edge_kernel_counterexample:
  "\<not> isl (build (GraphConvolution_init 4 False False linear True ones zeros)
            [[2, 3], [2, 2], [2, 2, 0]])
   \<and> edge_kernel (projr (build (GraphConvolution_init 4 False False linear True ones zeros)
                           [[2, 3], [2, 2], [2, 2, 0]]))
       = Some \<lparr>shape = [0, 4], data = []\<rparr>
   \<and> last ([[2, 3], [2, 2], [2, 2, 0]] ! 2) = (0::nat)"
  by (simp add: build_def GraphConvolution_init_def getitem_def last_item_def add_weight_def Let_def)

section \<open>The stack of layers\<close>

text \<open>
  Claim C5, as the code has it. On a stack of at least one layer, whose layers are as
  the constructor or an earlier call left them, a call on \<open>[X, A]\<close> and the further
  inputs returns the outputs it keeps in order: the last of the layers' outputs when
  \<^verbatim>\<open>last_layer_only\<close> is set, all \<^verbatim>\<open>num_layers\<close> of them otherwise. Each
  output is the value of its layer before any ReLU, of shape \<open>(N, F_out)\<close>, and the
  ReLU of it is the input of the next layer. The layers the call leaves are again in
  such a state.
\<close>

theorem stacked_call_outputs:
  assumes n: "1 \<le> num_layers self" "length (gc_layers self) = nat (num_layers self)"
    and act: "model_activation self = relu"
    and ok: "layers_ok nf N F rest (gc_layers self)"
    and X: "has_shape X [N, F]"
    and A: "na A0 (model_rooted_subtree self) = Inr A" "has_shape A [N, N]"
  shows "\<exists>self' ys. StackedGraphConvolution_call na self (X # A0 # rest)
                       = Inr (self', if last_layer_only self then [last ys] else ys)
           \<and> ys = stack_values na (gc_layers self') A rest X
           \<and> length ys = nat (num_layers self)
           \<and> list_all (\<lambda>y. has_shape y [N, nf]) ys
           \<and> length (if last_layer_only self then [last ys] else ys)
               = (if last_layer_only self then 1 else nat (num_layers self))
           \<and> layers_ok nf N F rest (gc_layers self')"
proof -
  have s: "shape X = [N, F]" "shape A = [N, N]"
    using X A(2) by (simp_all add: has_shape_def)
  from n have ne: "gc_layers self \<noteq> []"
    by auto
  obtain ls' where ls': "call_layers na self A rest 0 (gc_layers self) X [] =
      Inr (ls', [] @ (if last_layer_only self
                      then (if gc_layers self = [] then [] else [last (stack_values na ls' A rest X)])
                      else stack_values na ls' A rest X))"
    "length (stack_values na ls' A rest X) = length (gc_layers self)"
    "\<forall>y\<in>set (stack_values na ls' A rest X). has_shape y [N, nf]"
    "layers_ok nf N F rest ls'"
    using call_layers_ok [OF ok s act, of 0 na "[]"] by auto
  let ?self' = "self\<lparr>gc_layers := ls'\<rparr>"
  let ?ys = "stack_values na ls' A rest X"
  have "StackedGraphConvolution_call na self (X # A0 # rest)
      = Inr (?self', if last_layer_only self then [last ?ys] else ?ys)"
    using ls'(1) ne A(1) by (simp add: StackedGraphConvolution_call_def getitem_def)
  then show ?thesis
    using ls'(2-4) n(2)
    by (intro exI [of _ ?self'] exI [of _ ?ys]) (simp add: list_all_iff)
qed

theorem stacked_call_outputs_witness:
  "1 \<le> num_layers (StackedGraphConvolution_init (for_each_layer ones) 2 1 True True)
   \<and> layers_ok 1 2 1 [] (gc_layers (StackedGraphConvolution_init (for_each_layer ones) 2 1 True True))
   \<and> map_sum id snd (StackedGraphConvolution_call identity_normalizer
        (StackedGraphConvolution_init (for_each_layer ones) 2 1 True True) [X_example, A_example])
       = Inr [finite_tensor [2, 1] [41 / 4, 59 / 4]]
   \<and> map_sum id snd (StackedGraphConvolution_call identity_normalizer
        (StackedGraphConvolution_init (for_each_layer ones) 2 1 False True) [X_example, A_example])
       = Inr [finite_tensor [2, 1] [13 / 2, 7 / 2], finite_tensor [2, 1] [41 / 4, 59 / 4]]"
proof -
  let ?last = "StackedGraphConvolution_init (for_each_layer ones) 2 1 True True"
  let ?every = "StackedGraphConvolution_init (for_each_layer ones) 2 1 False True"
  have two: "[0..<2] = [0, 1]"
    by (simp add: upt_rec)
  have n: "1 \<le> num_layers ?last" "length (gc_layers ?last) = nat (num_layers ?last)"
    "1 \<le> num_layers ?every" "length (gc_layers ?every) = nat (num_layers ?every)"
    by (simp_all add: StackedGraphConvolution_init_def)
  have act: "model_activation ?last = relu" "model_activation ?every = relu"
    by (simp_all add: StackedGraphConvolution_init_def)
  have ok: "layers_ok 1 2 1 [] (gc_layers ?last)" "layers_ok 1 2 1 [] (gc_layers ?every)"
    by (simp_all add: StackedGraphConvolution_init_def two layer_ok_def rest_ok_def
        GraphConvolution_init_def)
  have X: "has_shape X_example [2, 1]" and A: "has_shape A_example [2, 2]"
    by (simp_all add: X_example_def A_example_def finite_tensor_def has_shape_def)
  have na: "identity_normalizer A_example (model_rooted_subtree ?last) = Inr A_example"
    "identity_normalizer A_example (model_rooted_subtree ?every) = Inr A_example"
    by (simp_all add: identity_normalizer_def)
  have v: "map_sum id snd (StackedGraphConvolution_call identity_normalizer ?last [X_example, A_example])
       = Inr [finite_tensor [2, 1] [41 / 4, 59 / 4]]"
    "map_sum id snd (StackedGraphConvolution_call identity_normalizer ?every [X_example, A_example])
       = Inr [finite_tensor [2, 1] [13 / 2, 7 / 2], finite_tensor [2, 1] [41 / 4, 59 / 4]]"
    by code_simp+
  from stacked_call_outputs [where na = identity_normalizer and ?A0.0 = A_example,
      OF n(1,2) act(1) ok(1) X na(1) A]
    stacked_call_outputs [where na = identity_normalizer and ?A0.0 = A_example,
      OF n(3,4) act(2) ok(2) X na(2) A] n ok v
  show ?thesis
    by simp
qed

text \<open>
  The claim C5 as the specification words it fails on a stack of no layers with
  \<^verbatim>\<open>last_layer_only\<close>: the loop never runs and the result is empty, not of
  length 1.
\<close>

theorem stacked_call_outputs_counterexample:
  "last_layer_only (StackedGraphConvolution_init (for_each_layer ones) 0 1 True True)
   \<and> map_sum id snd (StackedGraphConvolution_call identity_normalizer
        (StackedGraphConvolution_init (for_each_layer ones) 0 1 True True) [X_example, A_example])
       = Inr []"
  by code_simp

text \<open>
  Claim C6. \<^verbatim>\<open>vocab_size()\<close> is 1 when \<^verbatim>\<open>last_layer_only\<close> is set and
  \<^verbatim>\<open>num_layers\<close> otherwise, on every stack and so on one constructed with any number
  of layers.
\<close>

theorem vocab_size_value:
  "vocab_size self = (if last_layer_only self then 1 else num_layers self)
   \<and> vocab_size (StackedGraphConvolution_init g n nf llo rs) = (if llo then 1 else n)"
  by (simp add: vocab_size_def StackedGraphConvolution_init_def)

theorem vocab_size_value_witness:
  "vocab_size (StackedGraphConvolution_init (for_each_layer ones) 3 2 True False) = 1
   \<and> vocab_size (StackedGraphConvolution_init (for_each_layer ones) 3 2 False False) = 3"
  using vocab_size_value [of "StackedGraphConvolution_init (for_each_layer ones) 3 2 True False"
      "for_each_layer ones" 3 2 True False]
    vocab_size_value [of "StackedGraphConvolution_init (for_each_layer ones) 3 2 False False"
      "for_each_layer ones" 3 2 False False]
  by simp

end
